theory Spec2Isabelle
  imports Complex_Main "HOL-Library.Multiset"
begin

section \<open>Numbers\<close>

text \<open>
  A JavaScript number is modelled as a real: the arithmetic of the haversine formula and
  the comparisons of the classifier are read over the reals, so rounding and NaN are not
  part of the model, and no property below is an equality between the results of two
  different floating-point computations. The one non-real value the code computes with on
  purpose is \<^verbatim>\<open>Infinity\<close>, the start value of both linear scans; it is a
  constructor of its own.
\<close>

datatype jsnum = Num real | Infinity

text \<open>\<^verbatim>\<open>x < n\<close> for a finite \<open>x\<close>.\<close>

fun less_jsnum :: "real \<Rightarrow> jsnum \<Rightarrow> bool" where
  "less_jsnum x Infinity = True"
| "less_jsnum x (Num y) = (x < y)"

text \<open>\<^verbatim>\<open>n <= x\<close> for a finite \<open>x\<close>.\<close>

fun jsnum_le :: "jsnum \<Rightarrow> real \<Rightarrow> bool" where
  "jsnum_le Infinity x = False"
| "jsnum_le (Num y) x = (y \<le> x)"

text \<open>\<^verbatim>\<open>n / x\<close> for a finite positive \<open>x\<close>.\<close>

fun jsnum_div :: "jsnum \<Rightarrow> real \<Rightarrow> jsnum" where
  "jsnum_div Infinity x = Infinity"
| "jsnum_div (Num y) x = Num (y / x)"

text \<open>
  Truthiness of an optional number, as in \<^verbatim>\<open>place.distance && ...\<close> and
  \<^verbatim>\<open>place.distance ? ... : ...\<close>: \<^verbatim>\<open>undefined\<close> and \<^verbatim>\<open>0\<close> are falsy.
\<close>

fun truthy :: "real option \<Rightarrow> bool" where
  "truthy None = False"
| "truthy (Some d) = (d \<noteq> 0)"

text \<open>\<^verbatim>\<open>Math.atan2(y, x)\<close>, by the quadrant of \<open>(x, y)\<close>.\<close>

definition atan2 :: "real \<Rightarrow> real \<Rightarrow> real" where
  "atan2 y x =
     (if 0 < x then arctan (y / x)
      else if x < 0 then (if 0 \<le> y then arctan (y / x) + pi else arctan (y / x) - pi)
      else if 0 < y then pi / 2
      else if y < 0 then - (pi / 2)
      else 0)"

section \<open>Data model\<close>

record LatLng =
  lat :: real
  lng :: real

datatype PlaceType = police | hospital | government

record SafePlace =
  sp_id :: string
  sp_name :: string
  sp_type :: PlaceType
  address :: string
  phone :: "string option"
  distance :: "real option"
  sp_lat :: real
  sp_lng :: real
  rating :: "real option"
  isOpen :: "bool option"

datatype Zone = unknown | green | orange | red

record ZoneStatus =
  zone :: Zone
  nearestDistance :: jsnum
  nearestPlace :: "SafePlace option"

text \<open>
  The Dashboard's status also carries a display message. Its text is a template over the
  zone, the distance and the name of the nearest place; the model keeps the template and
  its arguments and leaves the formatting (\<^verbatim>\<open>toFixed(1)\<close>) out.
\<close>

datatype Message =
  GettingLocation
| Searching
| SafeGreenZoneNear "string option"
| OrangeZoneFrom jsnum "string option"
| HighRiskRedZoneFrom jsnum "string option"

record DashboardZoneStatus = ZoneStatus +
  message :: Message

section \<open>Haversine distance\<close>

text \<open>\<^verbatim>\<open>getDistance\<close> of NearbySafePlaces: metres, Earth radius \<^verbatim>\<open>6371e3\<close>.\<close>

definition getDistance :: "LatLng \<Rightarrow> LatLng \<Rightarrow> real" where
  "getDistance pos1 pos2 =
     (let R = 6371000;
          phi1 = lat pos1 * pi / 180;
          phi2 = lat pos2 * pi / 180;
          dphi = (lat pos2 - lat pos1) * pi / 180;
          dlam = (lng pos2 - lng pos1) * pi / 180;
          a = sin (dphi / 2) * sin (dphi / 2)
              + cos phi1 * cos phi2 * sin (dlam / 2) * sin (dlam / 2);
          c = 2 * atan2 (sqrt a) (sqrt (1 - a))
      in R * c)"

text \<open>
  \<^verbatim>\<open>getDistance\<close> of the Dashboard: kilometres, Earth radius \<^verbatim>\<open>6371\<close>. Over
  the reals its value is the metre value divided by 1000; the code's doubles round
  \<^verbatim>\<open>6371 * c\<close> and \<^verbatim>\<open>6371e3 * c\<close> separately, so the two can differ in the last
  place, and nothing below relies on that relation. The one value used is the distance 0
  between equal coordinates, which the doubles give as well.
\<close>

definition toRad :: "real \<Rightarrow> real" where
  "toRad v = v * pi / 180"

definition getDistance_Dashboard :: "real \<Rightarrow> real \<Rightarrow> real \<Rightarrow> real \<Rightarrow> real" where
  "getDistance_Dashboard lat1 lon1 lat2 lon2 =
     (let R = 6371;
          dLat = toRad (lat2 - lat1);
          dLon = toRad (lon2 - lon1);
          a = sin (dLat / 2) * sin (dLat / 2)
              + cos (toRad lat1) * cos (toRad lat2) * sin (dLon / 2) * sin (dLon / 2);
          c = 2 * atan2 (sqrt a) (sqrt (1 - a))
      in R * c)"

section \<open>Zone classifiers\<close>

text \<open>
  \<^verbatim>\<open>calculateZoneStatus\<close> of NearbySafePlaces. The body of its
  \<^verbatim>\<open>forEach\<close> is \<open>scanStep\<close>: a place is taken when its distance is truthy and
  strictly below the best so far.
\<close>

definition scanStep :: "jsnum \<times> SafePlace option \<Rightarrow> SafePlace \<Rightarrow> jsnum \<times> SafePlace option" where
  "scanStep acc place =
     (case distance place of
        None \<Rightarrow> acc
      | Some d \<Rightarrow> if truthy (Some d) \<and> less_jsnum d (fst acc) then (Num d, Some place) else acc)"

definition calculateZoneStatus :: "LatLng option \<Rightarrow> SafePlace list \<Rightarrow> ZoneStatus" where
  "calculateZoneStatus userLocation places =
     (if userLocation = None \<or> length places = 0
      then \<lparr>zone = unknown, nearestDistance = Num 0, nearestPlace = None\<rparr>
      else
        (let scan = foldl scanStep (Infinity, None) places;
             distanceInKm = jsnum_div (fst scan) 1000
         in if jsnum_le distanceInKm 1.0
            then \<lparr>zone = green, nearestDistance = distanceInKm, nearestPlace = snd scan\<rparr>
            else if jsnum_le distanceInKm 5.0
            then \<lparr>zone = orange, nearestDistance = distanceInKm, nearestPlace = snd scan\<rparr>
            else \<lparr>zone = red, nearestDistance = distanceInKm, nearestPlace = snd scan\<rparr>))"

text \<open>
  \<^verbatim>\<open>checkSafetyZone\<close> of the Dashboard. A falsy distance is replaced by the
  haversine distance from the user's location; the comparison is in kilometres.
\<close>

definition distanceKm :: "LatLng \<Rightarrow> SafePlace \<Rightarrow> real" where
  "distanceKm userLoc place =
     (if truthy (distance place) then the (distance place) / 1000
      else getDistance_Dashboard (lat userLoc) (lng userLoc) (sp_lat place) (sp_lng place))"

definition checkStep :: "LatLng \<Rightarrow> jsnum \<times> SafePlace option \<Rightarrow> SafePlace \<Rightarrow> jsnum \<times> SafePlace option" where
  "checkStep userLoc acc place =
     (if less_jsnum (distanceKm userLoc place) (fst acc)
      then (Num (distanceKm userLoc place), Some place) else acc)"

definition checkSafetyZone :: "LatLng option \<Rightarrow> SafePlace list \<Rightarrow> DashboardZoneStatus" where
  "checkSafetyZone userLoc safePlaces =
     (case userLoc of
        None \<Rightarrow> \<lparr>zone = unknown, nearestDistance = Num 0, nearestPlace = None, message = Searching\<rparr>
      | Some loc \<Rightarrow>
          if length safePlaces = 0
          then \<lparr>zone = unknown, nearestDistance = Num 0, nearestPlace = None, message = Searching\<rparr>
          else
            (let scan = foldl (checkStep loc) (Infinity, None) safePlaces;
                 nearest = fst scan;
                 place = snd scan
             in if jsnum_le nearest 1.0
                then \<lparr>zone = green, nearestDistance = nearest, nearestPlace = place,
                       message = SafeGreenZoneNear (map_option sp_name place)\<rparr>
                else if jsnum_le nearest 5.0
                then \<lparr>zone = orange, nearestDistance = nearest, nearestPlace = place,
                       message = OrangeZoneFrom nearest (map_option sp_name place)\<rparr>
                else \<lparr>zone = red, nearestDistance = nearest, nearestPlace = place,
                       message = HighRiskRedZoneFrom nearest (map_option sp_name place)\<rparr>))"

section \<open>Places provider\<close>

datatype PlacesServiceStatus =
  OK | ZERO_RESULTS | INVALID_REQUEST | OVER_QUERY_LIMIT | REQUEST_DENIED | UNKNOWN_ERROR | NOT_FOUND

text \<open>
  A place of a provider response. The fields the code reads with a non-null assertion
  (\<^verbatim>\<open>place_id!\<close>, \<^verbatim>\<open>name!\<close>, \<^verbatim>\<open>geometry!.location!\<close>) are always present.
\<close>

record PlaceResult =
  place_id :: string
  pr_name :: string
  vicinity :: "string option"
  location_lat :: real
  location_lng :: real
  pr_rating :: "real option"
  open_now :: "bool option"

text \<open>
  The provider as the component meets it: whether \<^verbatim>\<open>window.google\<close> is there, what
  \<^verbatim>\<open>nearbySearch\<close> hands to the callback of a request (the results, which may be
  \<^verbatim>\<open>null\<close>, and the status), and for each radius the order in which the callbacks of
  the dispatched requests run.
\<close>

record Provider =
  googleLoaded :: bool
  nearbySearch :: "LatLng \<Rightarrow> nat \<Rightarrow> string \<Rightarrow> PlaceResult list option \<times> PlacesServiceStatus"
  completion :: "nat \<Rightarrow> (PlaceType \<times> string) list"

datatype 'a promise = Rejected string | Pending | Resolved 'a

section \<open>PlaceSearchAggregator\<close>

definition searchTypes :: "(PlaceType \<times> string list) list" where
  "searchTypes =
     [(police, [''police station'', ''police'']),
      (hospital, [''hospital'', ''emergency'', ''medical center'']),
      (government, [''government office'', ''collectorate'', ''fire station''])]"

definition totalSearches :: nat where
  "totalSearches = length searchTypes * length (snd (searchTypes ! 0))"

text \<open>The requests the two nested \<^verbatim>\<open>forEach\<close> loops dispatch, in dispatch order.\<close>

definition queries :: "(PlaceType \<times> string) list" where
  "queries = concat (map (\<lambda>searchType. map (\<lambda>keyword. (fst searchType, keyword)) (snd searchType)) searchTypes)"

definition toSafePlace :: "LatLng \<Rightarrow> PlaceType \<Rightarrow> PlaceResult \<Rightarrow> SafePlace" where
  "toSafePlace location ty place =
     \<lparr>sp_id = place_id place,
      sp_name = pr_name place,
      sp_type = ty,
      address = (case vicinity place of
                   None \<Rightarrow> ''Address not available''
                 | Some v \<Rightarrow> if v = [] then ''Address not available'' else v),
      phone = None,
      distance = Some (getDistance location \<lparr>lat = location_lat place, lng = location_lng place\<rparr>),
      sp_lat = location_lat place,
      sp_lng = location_lng place,
      rating = pr_rating place,
      isOpen = open_now place\<rparr>"

text \<open>\<^verbatim>\<open>Array.prototype.findIndex\<close>: the first index whose element passes, or \<open>-1\<close>.\<close>

fun findIndex :: "('a \<Rightarrow> bool) \<Rightarrow> 'a list \<Rightarrow> int" where
  "findIndex P [] = - 1"
| "findIndex P (x # xs) =
     (if P x then 0 else (let i = findIndex P xs in if i = - 1 then - 1 else i + 1))"

text \<open>
  \<^verbatim>\<open>allPlaces.filter((place, index, self) => index === self.findIndex(p => p.id === place.id))\<close>
\<close>

definition uniquePlaces :: "SafePlace list \<Rightarrow> SafePlace list" where
  "uniquePlaces self =
     map snd (filter (\<lambda>(index, place). int index = findIndex (\<lambda>p. sp_id p = sp_id place) self)
                (enumerate 0 self))"

text \<open>
  \<^verbatim>\<open>uniquePlaces.sort((a, b) => (a.distance || 0) - (b.distance || 0))\<close>: the
  engine's sort is stable, and so is \<open>sort_key\<close>.
\<close>

definition distanceOr0 :: "SafePlace \<Rightarrow> real" where
  "distanceOr0 p = (if truthy (distance p) then the (distance p) else 0)"

definition sortedPlaces :: "SafePlace list \<Rightarrow> SafePlace list" where
  "sortedPlaces ps = sort_key distanceOr0 ps"

text \<open>
  The state the callbacks of one \<^verbatim>\<open>searchWithGoogleService\<close> call share, and what
  the promise was resolved with (a promise keeps its first resolution).
\<close>

record search_state =
  allPlaces :: "SafePlace list"
  completedSearches :: nat
  resolved :: "SafePlace list option"

definition callback ::
  "LatLng \<Rightarrow> PlaceType \<Rightarrow> PlaceResult list option \<times> PlacesServiceStatus \<Rightarrow> search_state \<Rightarrow> search_state" where
  "callback location ty response s =
     (let s1 = s\<lparr>completedSearches := completedSearches s + 1\<rparr>;
          s2 = (case fst response of
                  Some results \<Rightarrow>
                    if snd response = OK
                    then s1\<lparr>allPlaces := allPlaces s1 @ map (toSafePlace location ty) results\<rparr>
                    else s1
                | None \<Rightarrow> s1)
      in if completedSearches s2 = totalSearches
         then (case resolved s2 of
                 None \<Rightarrow> s2\<lparr>resolved := Some (sortedPlaces (uniquePlaces (allPlaces s2)))\<rparr>
               | Some r \<Rightarrow> s2)
         else s2)"

definition runCallbacks :: "Provider \<Rightarrow> LatLng \<Rightarrow> nat \<Rightarrow> search_state" where
  "runCallbacks prov location radius =
     foldl (\<lambda>s q. callback location (fst q) (nearbySearch prov location radius (snd q)) s)
       \<lparr>allPlaces = [], completedSearches = 0, resolved = None\<rparr>
       (completion prov radius)"

definition searchWithGoogleService :: "Provider \<Rightarrow> LatLng \<Rightarrow> nat \<Rightarrow> SafePlace list promise" where
  "searchWithGoogleService prov location radius =
     (if \<not> googleLoaded prov then Rejected ''Google Maps not loaded''
      else (case resolved (runCallbacks prov location radius) of
              None \<Rightarrow> Pending
            | Some places \<Rightarrow> Resolved places))"

text \<open>
  The state of the NearbySafePlaces component, with two logs of what a call does to the
  outside: the radii for which requests were dispatched, and the lists handed to
  \<^verbatim>\<open>onNearestPlaceUpdate\<close>.
\<close>

record NearbySafePlaces =
  safePlaces :: "SafePlace list"
  loading :: bool
  searchRadius :: nat
  error :: "string option"
  zoneStatus :: ZoneStatus
  searched :: "nat list"
  updates :: "SafePlace list list"

definition NearbySafePlaces_init :: NearbySafePlaces where
  "NearbySafePlaces_init =
     \<lparr>safePlaces = [], loading = False, searchRadius = 20, error = None,
      zoneStatus = \<lparr>zone = unknown, nearestDistance = Num 0, nearestPlace = None\<rparr>,
      searched = [], updates = []\<rparr>"

text \<open>The \<^verbatim>\<open>catch\<close> and \<^verbatim>\<open>finally\<close> blocks of \<^verbatim>\<open>findNearbyPlaces\<close>.\<close>

definition caught :: "NearbySafePlaces \<Rightarrow> NearbySafePlaces" where
  "caught st = st\<lparr>error := Some ''Unable to fetch nearby places. Please try again.'', loading := False\<rparr>"

text \<open>The rest of the \<^verbatim>\<open>try\<close> block once the list to show is known.\<close>

definition deliver :: "LatLng option \<Rightarrow> SafePlace list \<Rightarrow> NearbySafePlaces \<Rightarrow> NearbySafePlaces" where
  "deliver userLocation places st =
     (let nearestPlaces = take 8 places
      in st\<lparr>safePlaces := nearestPlaces,
            zoneStatus := calculateZoneStatus userLocation nearestPlaces,
            updates := updates st @ [nearestPlaces],
            loading := False\<rparr>)"

text \<open>
  \<^verbatim>\<open>findNearbyPlaces\<close>: the state once everything the call will ever do has happened.
  An \<^verbatim>\<open>await\<close> on a promise that stays pending leaves the call suspended, with
  \<^verbatim>\<open>loading\<close> still set.
\<close>

definition findNearbyPlaces :: "Provider \<Rightarrow> LatLng option \<Rightarrow> LatLng \<Rightarrow> NearbySafePlaces \<Rightarrow> NearbySafePlaces" where
  "findNearbyPlaces prov userLocation location st =
     (let st1 = st\<lparr>loading := True, error := None\<rparr>
      in case searchWithGoogleService prov location 20000 of
           Rejected e \<Rightarrow> caught st1
         | Pending \<Rightarrow> st1\<lparr>searched := searched st1 @ [20000]\<rparr>
         | Resolved places \<Rightarrow>
             (let st2 = st1\<lparr>searched := searched st1 @ [20000], searchRadius := 20\<rparr>
              in if length places = 0
                 then (case searchWithGoogleService prov location 50000 of
                         Rejected e \<Rightarrow> caught st2
                       | Pending \<Rightarrow> st2\<lparr>searched := searched st2 @ [50000]\<rparr>
                       | Resolved places' \<Rightarrow>
                           deliver userLocation places'
                             (st2\<lparr>searched := searched st2 @ [50000], searchRadius := 50\<rparr>))
                 else deliver userLocation places st2))"

definition refreshPlaces :: "Provider \<Rightarrow> LatLng option \<Rightarrow> NearbySafePlaces \<Rightarrow> NearbySafePlaces" where
  "refreshPlaces prov userLocation st =
     (case userLocation of
        None \<Rightarrow> st
      | Some location \<Rightarrow> findNearbyPlaces prov userLocation location st)"

text \<open>
  Which card the component renders: the order of the early returns. The error card shows
  the message and a Retry button bound to \<^verbatim>\<open>refreshPlaces\<close>; an empty message is
  falsy and falls through to the list.
\<close>

datatype View =
  AllowLocationCard
| FindingCard
| ErrorCardWithRetry string
| PlacesCard nat ZoneStatus "SafePlace list"

definition render :: "LatLng option \<Rightarrow> NearbySafePlaces \<Rightarrow> View" where
  "render userLocation st =
     (if userLocation = None then AllowLocationCard
      else if loading st then FindingCard
      else (case error st of
              Some e \<Rightarrow>
                if e = [] then PlacesCard (searchRadius st) (zoneStatus st) (safePlaces st)
                else ErrorCardWithRetry e
            | None \<Rightarrow> PlacesCard (searchRadius st) (zoneStatus st) (safePlaces st)))"

section \<open>Location source and Dashboard\<close>

text \<open>
  What \<^verbatim>\<open>navigator.geolocation\<close> does for one \<^verbatim>\<open>getCurrentPosition\<close> request: it is
  missing, it calls the success callback with a position, or it calls the error callback
  (failure, denial, timeout).
\<close>

datatype Geolocation = Unsupported | Position real real | PositionError

record GoogleMap =
  currentLocation :: "LatLng option"
  isLoading :: bool
  needsLocationPermission :: bool

text \<open>The default of the \<^verbatim>\<open>center\<close> prop.\<close>

definition defaultCenter :: LatLng where
  "defaultCenter = \<lparr>lat = 28.6139, lng = 77.2090\<rparr>"

text \<open>
  \<^verbatim>\<open>getCurrentLocation\<close>: the new state of the map component and the location it
  hands to \<^verbatim>\<open>onLocationChange\<close>.
\<close>

definition getCurrentLocation :: "LatLng \<Rightarrow> Geolocation \<Rightarrow> GoogleMap \<Rightarrow> GoogleMap \<times> LatLng" where
  "getCurrentLocation center geo st =
     (let st1 = st\<lparr>isLoading := True, needsLocationPermission := False\<rparr>
      in case geo of
           Position la lo \<Rightarrow>
             (st1\<lparr>currentLocation := Some \<lparr>lat = la, lng = lo\<rparr>, isLoading := False\<rparr>,
              \<lparr>lat = la, lng = lo\<rparr>)
         | PositionError \<Rightarrow> (st1\<lparr>currentLocation := Some center, isLoading := False\<rparr>, center)
         | Unsupported \<Rightarrow> (st1\<lparr>currentLocation := Some center, isLoading := False\<rparr>, center))"

record Dashboard =
  userLocation :: "LatLng option"
  nearestSafePlaces :: "SafePlace list"
  zoneStatus_Dashboard :: DashboardZoneStatus

definition Dashboard_init :: Dashboard where
  "Dashboard_init =
     \<lparr>userLocation = None, nearestSafePlaces = [],
      zoneStatus_Dashboard =
        \<lparr>zone = unknown, nearestDistance = Num 0, nearestPlace = None, message = GettingLocation\<rparr>\<rparr>"

text \<open>
  The Dashboard is a function component: every render creates its two handlers anew, and
  a handler reads the state variables of the render that created it
  (\<^verbatim>\<open>userLocation\<close> in \<^verbatim>\<open>handleNearestPlacesUpdate\<close>, \<^verbatim>\<open>nearestSafePlaces\<close> in
  \<^verbatim>\<open>handleLocationChange\<close>), while the setters write the state there is when the handler
  is called. A handler therefore takes two states: \<open>rendered\<close>, the state of the render
  that created it, and \<open>st\<close>, the state at the call. The two are equal when nothing has
  changed the Dashboard in between.
\<close>

definition handleNearestPlacesUpdate :: "Dashboard \<Rightarrow> SafePlace list \<Rightarrow> Dashboard \<Rightarrow> Dashboard" where
  "handleNearestPlacesUpdate rendered places st =
     (let st1 = st\<lparr>nearestSafePlaces := places\<rparr>
      in if userLocation rendered \<noteq> None \<and> length places > 0
         then st1\<lparr>zoneStatus_Dashboard := checkSafetyZone (userLocation rendered) places\<rparr>
         else st1)"

definition handleLocationChange :: "Dashboard \<Rightarrow> LatLng \<Rightarrow> Dashboard \<Rightarrow> Dashboard" where
  "handleLocationChange rendered location st =
     (let st1 = st\<lparr>userLocation := Some location\<rparr>
      in if length (nearestSafePlaces rendered) > 0
         then st1\<lparr>zoneStatus_Dashboard :=
                   checkSafetyZone (Some location) (nearestSafePlaces rendered)\<rparr>
         else st1)"

text \<open>
  One location request of the Dashboard's map. The map is rendered without a
  \<^verbatim>\<open>center\<close> prop, and the callbacks of the request keep the
  \<^verbatim>\<open>onLocationChange\<close> of the render in which the request was made: the
  \<^verbatim>\<open>handleLocationChange\<close> of the Dashboard render \<open>rendered\<close>. The answer comes
  later, when the Dashboard's state is \<open>snd st\<close>.
\<close>

definition locate :: "Geolocation \<Rightarrow> Dashboard \<Rightarrow> GoogleMap \<times> Dashboard \<Rightarrow> GoogleMap \<times> Dashboard" where
  "locate geo rendered st =
     (let r = getCurrentLocation defaultCenter geo (fst st)
      in (fst r, handleLocationChange rendered (snd r) (snd st)))"

section \<open>Notions used to state the properties\<close>

text \<open>
  What one completed request adds to \<^verbatim>\<open>allPlaces\<close>: its places when the status is
  \<^verbatim>\<open>OK\<close> and the results are not \<^verbatim>\<open>null\<close>, nothing otherwise.
\<close>

definition contribution :: "Provider \<Rightarrow> LatLng \<Rightarrow> nat \<Rightarrow> PlaceType \<times> string \<Rightarrow> SafePlace list" where
  "contribution prov location radius q =
     (case nearbySearch prov location radius (snd q) of
        (Some results, status) \<Rightarrow> if status = OK then map (toSafePlace location (fst q)) results else []
      | (None, status) \<Rightarrow> [])"

text \<open>The merge of the first \<open>n\<close> completed requests of a radius attempt, in completion order.\<close>

definition merged :: "Provider \<Rightarrow> LatLng \<Rightarrow> nat \<Rightarrow> nat \<Rightarrow> SafePlace list" where
  "merged prov location radius n =
     concat (map (contribution prov location radius) (take n (completion prov radius)))"

text \<open>\<open>runCallbacks\<close> over any list of completed requests.\<close>

definition runOver :: "Provider \<Rightarrow> LatLng \<Rightarrow> nat \<Rightarrow> (PlaceType \<times> string) list \<Rightarrow> search_state" where
  "runOver prov location radius qs =
     foldl (\<lambda>s q. callback location (fst q) (nearbySearch prov location radius (snd q)) s)
       \<lparr>allPlaces = [], completedSearches = 0, resolved = None\<rparr> qs"

text \<open>
  Deduplication as the specification words it: go through the list once and keep a place
  when its identifier has not been met before.
\<close>

fun keepFirst :: "string set \<Rightarrow> SafePlace list \<Rightarrow> SafePlace list" where
  "keepFirst seen [] = []"
| "keepFirst seen (x # xs) =
     (if sp_id x \<in> seen then keepFirst seen xs else x # keepFirst (insert (sp_id x) seen) xs)"

text \<open>A list whose places all carry a distance, in ascending order of it.\<close>

definition hasDistance :: "SafePlace \<Rightarrow> bool" where
  "hasDistance p = (distance p \<noteq> None)"

definition ascending :: "SafePlace list \<Rightarrow> bool" where
  "ascending ps = (list_all hasDistance ps \<and> sorted (map (\<lambda>p. the (distance p)) ps))"

text \<open>The stored status of the Dashboard is the classifier's answer on the stored inputs.\<close>

definition fresh :: "Dashboard \<Rightarrow> bool" where
  "fresh st = (zoneStatus_Dashboard st = checkSafetyZone (userLocation st) (nearestSafePlaces st))"

section \<open>Scenarios\<close>

definition placeAt :: "string \<Rightarrow> real \<Rightarrow> real \<Rightarrow> PlaceResult" where
  "placeAt i la lo =
     \<lparr>place_id = i, pr_name = i, vicinity = None, location_lat = la, location_lng = lo,
      pr_rating = None, open_now = None\<rparr>"

text \<open>
  Every request is answered \<^verbatim>\<open>OK\<close> with one place, named after the keyword and
  located at the centre of the search; the callbacks run in dispatch order.
\<close>

definition oneEach :: Provider where
  "oneEach =
     \<lparr>googleLoaded = True,
      nearbySearch = (\<lambda>location radius keyword.
         (Some [placeAt keyword (lat location) (lng location)], OK)),
      completion = (\<lambda>radius. queries)\<rparr>"

text \<open>The library is loaded, and every request comes back with an error status.\<close>

definition unreachable :: Provider where
  "unreachable =
     \<lparr>googleLoaded = True,
      nearbySearch = (\<lambda>location radius keyword. (None, UNKNOWN_ERROR)),
      completion = (\<lambda>radius. queries)\<rparr>"

text \<open>The library is not loaded.\<close>

definition notLoaded :: Provider where
  "notLoaded = unreachable\<lparr>googleLoaded := False\<rparr>"

text \<open>
  Both police keywords return the place \<open>P1\<close>, on the far side of the equator from a
  user at latitude and longitude zero; the second also returns \<open>P0\<close>, at the user's
  own position. The callbacks run in dispatch order.
\<close>

definition origin :: LatLng where
  "origin = \<lparr>lat = 0, lng = 0\<rparr>"

definition duplicated :: Provider where
  "duplicated =
     \<lparr>googleLoaded = True,
      nearbySearch = (\<lambda>location radius keyword.
         if keyword = ''police station'' then (Some [placeAt ''P1'' 0 180], OK)
         else if keyword = ''police'' then (Some [placeAt ''P1'' 0 180, placeAt ''P0'' 0 0], OK)
         else (Some [], ZERO_RESULTS)),
      completion = (\<lambda>radius. queries)\<rparr>"

text \<open>
  The first and the last dispatched request each find one place, \<open>A\<close> and \<open>B\<close>, at
  the centre of the search; the callbacks run in dispatch order.
\<close>

definition firstAndLast :: Provider where
  "firstAndLast =
     \<lparr>googleLoaded = True,
      nearbySearch = (\<lambda>location radius keyword.
         if keyword = ''police station''
         then (Some [placeAt ''A'' (lat location) (lng location)], OK)
         else if keyword = ''fire station''
         then (Some [placeAt ''B'' (lat location) (lng location)], OK)
         else (Some [], ZERO_RESULTS)),
      completion = (\<lambda>radius. queries)\<rparr>"

text \<open>
  Only the last dispatched request finds a place, \<open>F1\<close>, at either radius; the callbacks
  run in dispatch order.
\<close>

definition lastOnly :: Provider where
  "lastOnly =
     \<lparr>googleLoaded = True,
      nearbySearch = (\<lambda>location radius keyword.
         if keyword = ''fire station''
         then (Some [placeAt ''F1'' (lat location) (lng location)], OK)
         else (Some [], ZERO_RESULTS)),
      completion = (\<lambda>radius. queries)\<rparr>"

text \<open>The answers of \<open>duplicated\<close>, with the callbacks in the reverse of dispatch order.\<close>

definition duplicatedLate :: Provider where
  "duplicatedLate = duplicated\<lparr>completion := (\<lambda>radius. rev queries)\<rparr>"

text \<open>A place with a given identifier and stored distance, at the default centre.\<close>

definition placeWith :: "string \<Rightarrow> real \<Rightarrow> SafePlace" where
  "placeWith i d =
     \<lparr>sp_id = i, sp_name = i, sp_type = police, address = ''Address not available'',
      phone = None, distance = Some d, sp_lat = 28.6139, sp_lng = 77.2090, rating = None,
      isOpen = None\<rparr>"

definition GoogleMap_init :: GoogleMap where
  "GoogleMap_init = \<lparr>currentLocation = None, isLoading = False, needsLocationPermission = True\<rparr>"

section \<open>Haversine distance at particular points\<close>

lemma getDistance_same: "lat q = lat p \<Longrightarrow> lng q = lng p \<Longrightarrow> getDistance p q = 0"
  by (simp add: getDistance_def atan2_def)

lemma getDistance_Dashboard_same: "getDistance_Dashboard la lo la lo = 0"
  by (simp add: getDistance_Dashboard_def atan2_def toRad_def)

lemma getDistance_antipode: "getDistance origin \<lparr>lat = 0, lng = 180\<rparr> = 6371000 * pi"
  by (simp add: getDistance_def origin_def atan2_def)

lemma getDistance_origin: "getDistance origin \<lparr>lat = 0, lng = 0\<rparr> = 0"
  by (rule getDistance_same) (simp_all add: origin_def)

section \<open>Zone classifiers\<close>

lemma placeWith_distance: "distance (placeWith i d) = Some d"
  by (simp add: placeWith_def)

lemma distanceKm_placeWith:
  "distanceKm defaultCenter (placeWith i d) = (if d = 0 then 0 else d / 1000)"
proof -
  have "getDistance_Dashboard (lat defaultCenter) (lng defaultCenter)
          (sp_lat (placeWith i e)) (sp_lng (placeWith i e)) = 0" for e
    by (simp add: placeWith_def defaultCenter_def getDistance_Dashboard_same)
  then show ?thesis by (simp add: distanceKm_def placeWith_distance)
qed

lemma checkSafetyZone_P1_500:
  "zone (checkSafetyZone (Some defaultCenter) [placeWith ''P1'' 500]) = green"
  by (simp add: checkSafetyZone_def checkStep_def distanceKm_placeWith Let_def)

text \<open>
  C2. For both classifiers the result is the Unknown zone, with distance 0 and no nearest
  place, exactly when the place list is empty or the user location is absent; for a
  non-empty list and a known location the zone is one of Green, Orange and Red.
\<close>

theorem zone_unknown_iff:
  "((zone (calculateZoneStatus u ps) = unknown
       \<and> nearestDistance (calculateZoneStatus u ps) = Num 0
       \<and> nearestPlace (calculateZoneStatus u ps) = None) = (u = None \<or> ps = []))
   \<and> ((zone (calculateZoneStatus u ps) = unknown) = (u = None \<or> ps = []))
   \<and> zone (calculateZoneStatus u ps) \<in> (if u = None \<or> ps = [] then {unknown} else {green, orange, red})
   \<and> ((zone (checkSafetyZone u ps) = unknown
       \<and> nearestDistance (checkSafetyZone u ps) = Num 0
       \<and> nearestPlace (checkSafetyZone u ps) = None) = (u = None \<or> ps = []))
   \<and> ((zone (checkSafetyZone u ps) = unknown) = (u = None \<or> ps = []))
   \<and> zone (checkSafetyZone u ps) \<in> (if u = None \<or> ps = [] then {unknown} else {green, orange, red})"
  by (auto simp: calculateZoneStatus_def checkSafetyZone_def Let_def split: option.splits)

theorem zone_unknown_iff_witness:
  "zone (calculateZoneStatus (Some defaultCenter) [placeWith ''P1'' 500]) \<noteq> unknown
   \<and> zone (checkSafetyZone (Some defaultCenter) [placeWith ''P1'' 500]) \<noteq> unknown
   \<and> zone (calculateZoneStatus None [placeWith ''P1'' 500]) = unknown
   \<and> zone (checkSafetyZone (Some defaultCenter) []) = unknown"
  using zone_unknown_iff [of "Some defaultCenter" "[placeWith ''P1'' 500]"]
    zone_unknown_iff [of None "[placeWith ''P1'' 500]"]
    zone_unknown_iff [of "Some defaultCenter" "[]"]
  by simp

subsection \<open>The scan finds the nearest place when every distance is truthy\<close>

lemma scanStep_truthy:
  "truthy (distance p) \<Longrightarrow>
     scanStep acc p = (if less_jsnum (the (distance p)) (fst acc) then (Num (the (distance p)), Some p) else acc)"
  by (cases "distance p") (auto simp: scanStep_def)

lemma scan_nearest:
  assumes "list_all (\<lambda>p. truthy (distance p)) ps"
  shows "if ps = [] then foldl scanStep (Infinity, None) ps = (Infinity, None)
         else (\<exists>p\<in>set ps. foldl scanStep (Infinity, None) ps = (Num (the (distance p)), Some p)
                 \<and> (\<forall>q\<in>set ps. the (distance p) \<le> the (distance q)))"
  using assms
proof (induction ps rule: rev_induct)
  case Nil
  show ?case by simp
next
  case (snoc x xs)
  then have tx: "truthy (distance x)" and txs: "list_all (\<lambda>p. truthy (distance p)) xs"
    by simp_all
  show ?case
  proof (cases "xs = []")
    case True
    then show ?thesis using tx by (simp add: scanStep_truthy)
  next
    case False
    with snoc.IH [OF txs] obtain p where p: "p \<in> set xs"
      "foldl scanStep (Infinity, None) xs = (Num (the (distance p)), Some p)"
      "\<forall>q\<in>set xs. the (distance p) \<le> the (distance q)"
      by auto
    show ?thesis
    proof (cases "the (distance x) < the (distance p)")
      case True
      have "foldl scanStep (Infinity, None) (xs @ [x]) = (Num (the (distance x)), Some x)"
        using p(2) True tx by (simp add: scanStep_truthy)
      moreover have "\<forall>q\<in>set (xs @ [x]). the (distance x) \<le> the (distance q)"
        using p(3) True by auto
      ultimately show ?thesis by auto
    next
      case False
      have "foldl scanStep (Infinity, None) (xs @ [x]) = (Num (the (distance p)), Some p)"
        using p(2) False tx by (simp add: scanStep_truthy)
      moreover have "\<forall>q\<in>set (xs @ [x]). the (distance p) \<le> the (distance q)"
        using p(3) False by auto
      ultimately show ?thesis using p(1) by auto
    qed
  qed
qed

lemma calculateZoneStatus_nearest:
  assumes "ps \<noteq> []" and "list_all (\<lambda>p. truthy (distance p)) ps"
  shows "\<exists>p\<in>set ps. (\<forall>q\<in>set ps. the (distance p) \<le> the (distance q))
           \<and> calculateZoneStatus (Some u) ps
               = \<lparr>zone = (if the (distance p) \<le> 1000 then green
                          else if the (distance p) \<le> 5000 then orange else red),
                  nearestDistance = Num (the (distance p) / 1000),
                  nearestPlace = Some p\<rparr>"
proof -
  from scan_nearest [OF assms(2)] assms(1) obtain p where p: "p \<in> set ps"
      "foldl scanStep (Infinity, None) ps = (Num (the (distance p)), Some p)"
      "\<forall>q\<in>set ps. the (distance p) \<le> the (distance q)"
    by auto
  have "calculateZoneStatus (Some u) ps
               = \<lparr>zone = (if the (distance p) \<le> 1000 then green
                          else if the (distance p) \<le> 5000 then orange else red),
                  nearestDistance = Num (the (distance p) / 1000),
                  nearestPlace = Some p\<rparr>"
    using assms(1) by (simp add: calculateZoneStatus_def p(2) Let_def)
  with p show ?thesis by blast
qed

lemma checkStep_truthy:
  "truthy (distance p) \<Longrightarrow>
     checkStep u acc p = (if less_jsnum (the (distance p) / 1000) (fst acc)
                          then (Num (the (distance p) / 1000), Some p) else acc)"
  by (simp add: checkStep_def distanceKm_def)

lemma check_nearest:
  assumes "list_all (\<lambda>p. truthy (distance p)) ps"
  shows "if ps = [] then foldl (checkStep u) (Infinity, None) ps = (Infinity, None)
         else (\<exists>p\<in>set ps. foldl (checkStep u) (Infinity, None) ps = (Num (the (distance p) / 1000), Some p)
                 \<and> (\<forall>q\<in>set ps. the (distance p) \<le> the (distance q)))"
  using assms
proof (induction ps rule: rev_induct)
  case Nil
  show ?case by simp
next
  case (snoc x xs)
  then have tx: "truthy (distance x)" and txs: "list_all (\<lambda>p. truthy (distance p)) xs"
    by simp_all
  show ?case
  proof (cases "xs = []")
    case True
    then show ?thesis using tx by (simp add: checkStep_truthy)
  next
    case False
    with snoc.IH [OF txs] obtain p where p: "p \<in> set xs"
      "foldl (checkStep u) (Infinity, None) xs = (Num (the (distance p) / 1000), Some p)"
      "\<forall>q\<in>set xs. the (distance p) \<le> the (distance q)"
      by auto
    show ?thesis
    proof (cases "the (distance x) < the (distance p)")
      case True
      have "foldl (checkStep u) (Infinity, None) (xs @ [x]) = (Num (the (distance x) / 1000), Some x)"
        using p(2) True tx by (simp add: checkStep_truthy)
      moreover have "\<forall>q\<in>set (xs @ [x]). the (distance x) \<le> the (distance q)"
        using p(3) True by auto
      ultimately show ?thesis by auto
    next
      case False
      have "foldl (checkStep u) (Infinity, None) (xs @ [x]) = (Num (the (distance p) / 1000), Some p)"
        using p(2) False tx by (simp add: checkStep_truthy)
      moreover have "\<forall>q\<in>set (xs @ [x]). the (distance p) \<le> the (distance q)"
        using p(3) False by auto
      ultimately show ?thesis using p(1) by auto
    qed
  qed
qed

lemma checkSafetyZone_nearest:
  assumes "ps \<noteq> []" and "list_all (\<lambda>p. truthy (distance p)) ps"
  shows "\<exists>p\<in>set ps. (\<forall>q\<in>set ps. the (distance p) \<le> the (distance q))
           \<and> zone (checkSafetyZone (Some u) ps)
               = (if the (distance p) \<le> 1000 then green
                  else if the (distance p) \<le> 5000 then orange else red)
           \<and> nearestDistance (checkSafetyZone (Some u) ps) = Num (the (distance p) / 1000)
           \<and> nearestPlace (checkSafetyZone (Some u) ps) = Some p"
proof -
  from check_nearest [OF assms(2), of u] assms(1) obtain p where p: "p \<in> set ps"
      "foldl (checkStep u) (Infinity, None) ps = (Num (the (distance p) / 1000), Some p)"
      "\<forall>q\<in>set ps. the (distance p) \<le> the (distance q)"
    by auto
  have "zone (checkSafetyZone (Some u) ps)
               = (if the (distance p) \<le> 1000 then green
                  else if the (distance p) \<le> 5000 then orange else red)
           \<and> nearestDistance (checkSafetyZone (Some u) ps) = Num (the (distance p) / 1000)
           \<and> nearestPlace (checkSafetyZone (Some u) ps) = Some p"
    using assms(1) by (simp add: checkSafetyZone_def p(2) Let_def)
  with p show ?thesis by blast
qed

lemma zone_boundaries:
  "zone (calculateZoneStatus (Some u) [placeWith i 1000]) = green
   \<and> zone (calculateZoneStatus (Some u) [placeWith i 1001]) = orange
   \<and> zone (calculateZoneStatus (Some u) [placeWith i 5000]) = orange
   \<and> zone (calculateZoneStatus (Some u) [placeWith i 5001]) = red
   \<and> zone (checkSafetyZone (Some defaultCenter) [placeWith i 1000]) = green
   \<and> zone (checkSafetyZone (Some defaultCenter) [placeWith i 1001]) = orange
   \<and> zone (checkSafetyZone (Some defaultCenter) [placeWith i 5000]) = orange
   \<and> zone (checkSafetyZone (Some defaultCenter) [placeWith i 5001]) = red"
  by (simp add: calculateZoneStatus_def scanStep_def placeWith_distance checkSafetyZone_def
        checkStep_def distanceKm_placeWith Let_def)

text \<open>
  C3. The claim: for every non-empty place list and known location the classifier's
  nearest distance is the minimum distance of the list, the nearest place attains it, and
  the zone is bucketed from it. \<^verbatim>\<open>calculateZoneStatus\<close> breaks it on a place whose
  distance is 0: a user standing at the place \<open>P1\<close> (the aggregator computes distance 0
  for it), with \<open>P2\<close> at 6000 m, is classified Red with \<open>P2\<close> nearest at 6 km; with
  \<open>P1\<close> alone the result is Red, distance \<^verbatim>\<open>Infinity\<close>, no nearest place.
  \<^verbatim>\<open>checkSafetyZone\<close> answers Green with \<open>P1\<close> nearest on the same list.
\<close>

theorem zero_distance_is_skipped:
  "toSafePlace defaultCenter police (placeAt ''P1'' 28.6139 77.2090) = placeWith ''P1'' 0
   \<and> calculateZoneStatus (Some defaultCenter) [placeWith ''P1'' 0, placeWith ''P2'' 6000]
       = \<lparr>zone = red, nearestDistance = Num 6, nearestPlace = Some (placeWith ''P2'' 6000)\<rparr>
   \<and> calculateZoneStatus (Some defaultCenter) [placeWith ''P1'' 0]
       = \<lparr>zone = red, nearestDistance = Infinity, nearestPlace = None\<rparr>
   \<and> zone (checkSafetyZone (Some defaultCenter) [placeWith ''P1'' 0, placeWith ''P2'' 6000]) = green
   \<and> nearestPlace (checkSafetyZone (Some defaultCenter) [placeWith ''P1'' 0, placeWith ''P2'' 6000])
       = Some (placeWith ''P1'' 0)"
proof (intro conjI)
  have "getDistance defaultCenter \<lparr>lat = 28.6139, lng = 77.2090\<rparr> = 0"
    by (rule getDistance_same) (simp_all add: defaultCenter_def)
  then show "toSafePlace defaultCenter police (placeAt ''P1'' 28.6139 77.2090) = placeWith ''P1'' 0"
    by (simp add: toSafePlace_def placeAt_def placeWith_def)
  show "calculateZoneStatus (Some defaultCenter) [placeWith ''P1'' 0, placeWith ''P2'' 6000]
       = \<lparr>zone = red, nearestDistance = Num 6, nearestPlace = Some (placeWith ''P2'' 6000)\<rparr>"
    by (simp add: calculateZoneStatus_def scanStep_def placeWith_distance Let_def)
  show "calculateZoneStatus (Some defaultCenter) [placeWith ''P1'' 0]
       = \<lparr>zone = red, nearestDistance = Infinity, nearestPlace = None\<rparr>"
    by (simp add: calculateZoneStatus_def scanStep_def placeWith_distance Let_def)
  show "zone (checkSafetyZone (Some defaultCenter) [placeWith ''P1'' 0, placeWith ''P2'' 6000]) = green"
    by (simp add: checkSafetyZone_def checkStep_def distanceKm_placeWith Let_def)
  show "nearestPlace (checkSafetyZone (Some defaultCenter) [placeWith ''P1'' 0, placeWith ''P2'' 6000])
       = Some (placeWith ''P1'' 0)"
    by (simp add: checkSafetyZone_def checkStep_def distanceKm_placeWith Let_def)
qed

section \<open>Deduplication\<close>

lemma findIndex_range: "findIndex P xs = - 1 \<or> 0 \<le> findIndex P xs"
  by (induction xs) (auto simp: Let_def)

lemma findIndex_none: "(findIndex P xs = - 1) = (\<forall>x\<in>set xs. \<not> P x)"
proof (induction xs)
  case Nil
  show ?case by simp
next
  case (Cons x xs)
  with findIndex_range [of P xs] show ?case by (auto simp: Let_def)
qed

lemma findIndex_append_hit:
  "P x \<Longrightarrow> (findIndex P (pre @ x # suf) = int (length pre)) = (\<forall>y\<in>set pre. \<not> P y)"
proof (induction pre)
  case Nil
  then show ?case by simp
next
  case (Cons a pre)
  have ne: "findIndex P (pre @ x # suf) \<noteq> - 1"
    using Cons.prems by (simp add: findIndex_none)
  show ?case
  proof (cases "P a")
    case True
    then show ?thesis by simp
  next
    case False
    then show ?thesis using Cons ne by (simp add: Let_def)
  qed
qed

lemma unique_suffix:
  "map snd (filter (\<lambda>(index, place). int index = findIndex (\<lambda>p. sp_id p = sp_id place) (pre @ suf))
              (enumerate (length pre) suf))
     = keepFirst (sp_id ` set pre) suf"
proof (induction suf arbitrary: pre)
  case Nil
  show ?case by simp
next
  case (Cons x suf)
  have hit: "(findIndex (\<lambda>p. sp_id p = sp_id x) (pre @ x # suf) = int (length pre))
               = (sp_id x \<notin> sp_id ` set pre)"
  proof -
    have "(findIndex (\<lambda>p. sp_id p = sp_id x) (pre @ x # suf) = int (length pre))
            = (\<forall>y\<in>set pre. sp_id y \<noteq> sp_id x)"
      by (rule findIndex_append_hit) simp
    also have "\<dots> = (sp_id x \<notin> sp_id ` set pre)" by (auto simp: image_iff)
    finally show ?thesis .
  qed
  have rest: "map snd (filter (\<lambda>(index, place). int index = findIndex (\<lambda>p. sp_id p = sp_id place) (pre @ x # suf))
              (enumerate (Suc (length pre)) suf))
            = keepFirst (sp_id ` set (pre @ [x])) suf"
    using Cons.IH [of "pre @ [x]"] by simp
  show ?case
  proof (cases "sp_id x \<in> sp_id ` set pre")
    case True
    then have "insert (sp_id x) (sp_id ` set pre) = sp_id ` set pre" by auto
    with True hit rest show ?thesis by (simp del: of_nat_Suc)
  next
    case False
    with hit rest show ?thesis by (simp del: of_nat_Suc)
  qed
qed

lemma uniquePlaces_keepFirst: "uniquePlaces xs = keepFirst {} xs"
  using unique_suffix [of "[]" xs] by (simp add: uniquePlaces_def)

lemma keepFirst_ids:
  "sp_id ` set (keepFirst seen xs) = sp_id ` set xs - seen"
  by (induction seen xs rule: keepFirst.induct) auto

lemma keepFirst_distinct: "distinct (map sp_id (keepFirst seen xs))"
  by (induction seen xs rule: keepFirst.induct) (auto simp: keepFirst_ids)

lemma keepFirst_subseq: "set (keepFirst seen xs) \<subseteq> set xs"
  by (induction seen xs rule: keepFirst.induct) auto

lemma keepFirst_first:
  "p \<in> set (keepFirst seen xs) \<Longrightarrow> find (\<lambda>q. sp_id q = sp_id p) xs = Some p"
proof (induction seen xs rule: keepFirst.induct)
  case (1 seen)
  then show ?case by simp
next
  case (2 seen x xs)
  show ?case
  proof (cases "sp_id x \<in> seen")
    case True
    with 2 have p: "p \<in> set (keepFirst seen xs)" by simp
    then have "sp_id p \<in> sp_id ` set (keepFirst seen xs)" by blast
    then have "sp_id p \<notin> seen" by (simp add: keepFirst_ids)
    with True have "sp_id x \<noteq> sp_id p" by auto
    with 2 True p show ?thesis by simp
  next
    case False
    show ?thesis
    proof (cases "p = x")
      case True
      then show ?thesis by simp
    next
      case ne: False
      with 2 False have p: "p \<in> set (keepFirst (insert (sp_id x) seen) xs)" by simp
      then have "sp_id p \<in> sp_id ` set (keepFirst (insert (sp_id x) seen) xs)" by blast
      then have "sp_id p \<noteq> sp_id x" by (auto simp: keepFirst_ids)
      with 2 False p show ?thesis by auto
    qed
  qed
qed

lemma keepFirst_count:
  "count_list (map sp_id (keepFirst seen xs)) i = (if i \<in> sp_id ` set xs - seen then 1 else 0)"
  by (induction seen xs rule: keepFirst.induct) auto

lemma uniquePlaces_length: "length (uniquePlaces xs) = card (sp_id ` set xs)"
proof -
  have "length (uniquePlaces xs) = length (map sp_id (uniquePlaces xs))" by simp
  also have "\<dots> = card (set (map sp_id (uniquePlaces xs)))"
    using keepFirst_distinct [of "{}" xs]
    by (simp only: uniquePlaces_keepFirst distinct_card)
  also have "\<dots> = card (sp_id ` set xs)"
    by (simp add: uniquePlaces_keepFirst keepFirst_ids)
  finally show ?thesis .
qed

lemma uniquePlaces_subset: "set (uniquePlaces xs) \<subseteq> set xs"
  by (simp add: uniquePlaces_keepFirst keepFirst_subseq)

section \<open>Sorting\<close>

lemma distanceOr0_present: "hasDistance p \<Longrightarrow> distanceOr0 p = the (distance p)"
  by (cases "distance p") (auto simp: hasDistance_def distanceOr0_def)

lemma sortedPlaces_ascending:
  assumes "list_all hasDistance ps"
  shows "ascending (sortedPlaces ps)"
proof -
  have all: "list_all hasDistance (sortedPlaces ps)"
    using assms by (simp add: sortedPlaces_def list_all_iff)
  then have eq: "map (\<lambda>p. the (distance p)) (sortedPlaces ps) = map distanceOr0 (sortedPlaces ps)"
    by (simp add: list_all_iff distanceOr0_present)
  have "sorted (map distanceOr0 (sortedPlaces ps))"
    by (simp add: sortedPlaces_def)
  then have "sorted (map (\<lambda>p. the (distance p)) (sortedPlaces ps))"
    by (simp only: eq)
  then show ?thesis using all by (simp add: ascending_def)
qed

lemma sortedPlaces_ids_distinct:
  "distinct (map sp_id (sortedPlaces ps)) = distinct (map sp_id ps)"
proof -
  have "mset (map sp_id (sortedPlaces ps)) = mset (map sp_id ps)"
    by (simp add: sortedPlaces_def)
  then show ?thesis by (rule mset_eq_imp_distinct_iff)
qed

lemma ascending_take: "ascending ps \<Longrightarrow> ascending (take n ps)"
proof -
  assume a: "ascending ps"
  have "set (take n ps) \<subseteq> set ps" by (rule set_take_subset)
  then have "list_all hasDistance (take n ps)"
    using a by (auto simp: ascending_def list_all_iff)
  moreover have "sorted (take n (map (\<lambda>p. the (distance p)) ps))"
    using a by (simp add: ascending_def)
  ultimately show ?thesis by (simp add: ascending_def take_map)
qed

lemma ascending_nth:
  "ascending ps \<Longrightarrow> i < j \<Longrightarrow> j < length ps \<Longrightarrow> the (distance (ps ! i)) \<le> the (distance (ps ! j))"
proof -
  assume a: "ascending ps" and ij: "i < j" "j < length ps"
  let ?ds = "map (\<lambda>p. the (distance p)) ps"
  have "sorted ?ds" using a by (simp add: ascending_def)
  moreover have "i \<le> j" "j < length ?ds" using ij by simp_all
  ultimately have "?ds ! i \<le> ?ds ! j" by (rule sorted_nth_mono)
  with ij show ?thesis by simp
qed

lemma contribution_hasDistance: "list_all hasDistance (contribution prov location radius q)"
  by (cases "nearbySearch prov location radius (snd q)")
     (auto simp: contribution_def hasDistance_def toSafePlace_def list_all_iff split: option.splits)

lemma merged_hasDistance: "list_all hasDistance (merged prov location radius n)"
  using contribution_hasDistance by (auto simp: merged_def list_all_iff)

lemma joined_ascending:
  "ascending (sortedPlaces (uniquePlaces (merged prov location radius n)))"
proof (rule sortedPlaces_ascending)
  show "list_all hasDistance (uniquePlaces (merged prov location radius n))"
    using merged_hasDistance [of prov location radius n] uniquePlaces_subset
    by (auto simp: list_all_iff)
qed

lemma joined_distinct:
  "distinct (map sp_id (sortedPlaces (uniquePlaces xs)))"
  by (simp add: sortedPlaces_ids_distinct uniquePlaces_keepFirst keepFirst_distinct)

lemma joined_empty_iff: "(sortedPlaces (uniquePlaces xs) = []) = (xs = [])"
proof -
  have "(sortedPlaces (uniquePlaces xs) = []) = (length (sortedPlaces (uniquePlaces xs)) = 0)"
    by simp
  also have "\<dots> = (card (sp_id ` set xs) = 0)"
    by (simp only: sortedPlaces_def length_sort uniquePlaces_length)
  also have "\<dots> = (xs = [])" by simp
  finally show ?thesis .
qed

lemma joined_length: "length (sortedPlaces (uniquePlaces xs)) = card (sp_id ` set xs)"
  by (simp only: sortedPlaces_def length_sort uniquePlaces_length)

section \<open>The join of searchWithGoogleService\<close>

lemma totalSearches_eq: "totalSearches = 6"
  by (simp add: totalSearches_def searchTypes_def)

lemma queries_eq: "queries = [(police, ''police station''), (police, ''police''),
   (hospital, ''hospital''), (hospital, ''emergency''), (hospital, ''medical center''),
   (government, ''government office''), (government, ''collectorate''), (government, ''fire station'')]"
  by (simp add: queries_def searchTypes_def)

lemma callback_allPlaces:
  "allPlaces (callback location (fst q) (nearbySearch prov location radius (snd q)) s)
     = allPlaces s @ contribution prov location radius q"
  by (cases "nearbySearch prov location radius (snd q)")
     (simp add: callback_def contribution_def Let_def split: option.splits)

lemma callback_completed:
  "completedSearches (callback location ty response s) = completedSearches s + 1"
  by (simp add: callback_def Let_def split: option.splits)

lemma callback_resolved:
  "resolved (callback location (fst q) (nearbySearch prov location radius (snd q)) s)
     = (if completedSearches s + 1 = totalSearches \<and> resolved s = None
        then Some (sortedPlaces (uniquePlaces (allPlaces s @ contribution prov location radius q)))
        else resolved s)"
  by (cases "nearbySearch prov location radius (snd q)")
     (simp add: callback_def contribution_def Let_def split: option.splits)

lemma runOver_snoc:
  "runOver prov location radius (qs @ [q])
     = callback location (fst q) (nearbySearch prov location radius (snd q)) (runOver prov location radius qs)"
  by (simp add: runOver_def)

lemma runOver_state:
  "completedSearches (runOver prov location radius qs) = length qs
   \<and> allPlaces (runOver prov location radius qs) = concat (map (contribution prov location radius) qs)
   \<and> resolved (runOver prov location radius qs)
       = (if totalSearches \<le> length qs
          then Some (sortedPlaces (uniquePlaces
                 (concat (map (contribution prov location radius) (take totalSearches qs)))))
          else None)"
proof (induction qs rule: rev_induct)
  case Nil
  show ?case by (simp add: runOver_def totalSearches_eq)
next
  case (snoc q qs)
  show ?case
    using snoc.IH
    by (simp only: runOver_snoc callback_allPlaces callback_completed callback_resolved)
       (auto simp: totalSearches_eq)
qed

lemma runCallbacks_resolved:
  "resolved (runCallbacks prov location radius)
     = (if totalSearches \<le> length (completion prov radius)
        then Some (sortedPlaces (uniquePlaces (merged prov location radius totalSearches)))
        else None)"
  using runOver_state [of prov location radius "completion prov radius"]
  by (simp add: runCallbacks_def runOver_def merged_def)

lemma searchWithGoogleService_eq:
  "searchWithGoogleService prov location radius
     = (if \<not> googleLoaded prov then Rejected ''Google Maps not loaded''
        else if totalSearches \<le> length (completion prov radius)
        then Resolved (sortedPlaces (uniquePlaces (merged prov location radius totalSearches)))
        else Pending)"
  by (simp add: searchWithGoogleService_def runCallbacks_resolved)

lemma resolved_cases:
  "searchWithGoogleService prov location radius = Resolved ps \<Longrightarrow>
     googleLoaded prov \<and> totalSearches \<le> length (completion prov radius)
     \<and> ps = sortedPlaces (uniquePlaces (merged prov location radius totalSearches))"
  by (auto simp: searchWithGoogleService_eq split: if_splits)

lemma toSafePlace_same:
  "toSafePlace location ty (placeAt i (lat location) (lng location))
     = \<lparr>sp_id = i, sp_name = i, sp_type = ty, address = ''Address not available'', phone = None,
        distance = Some 0, sp_lat = lat location, sp_lng = lng location, rating = None,
        isOpen = None\<rparr>"
  by (simp add: toSafePlace_def placeAt_def getDistance_same)

lemma merged_oneEach:
  "merged oneEach loc 20000 totalSearches
     = [toSafePlace loc police (placeAt ''police station'' (lat loc) (lng loc)),
        toSafePlace loc police (placeAt ''police'' (lat loc) (lng loc)),
        toSafePlace loc hospital (placeAt ''hospital'' (lat loc) (lng loc)),
        toSafePlace loc hospital (placeAt ''emergency'' (lat loc) (lng loc)),
        toSafePlace loc hospital (placeAt ''medical center'' (lat loc) (lng loc)),
        toSafePlace loc government (placeAt ''government office'' (lat loc) (lng loc))]"
  by (simp add: merged_def oneEach_def queries_eq totalSearches_eq contribution_def)

text \<open>
  C1. The claim: the promise is resolved only after all of the dispatched requests have
  completed, so the result holds the contribution of the last one. The code dispatches 8
  requests and resolves when the counter reaches \<open>totalSearches = 6\<close>: with one place per
  request and the callbacks in dispatch order, the resolved list has the places of the
  first six requests, and the place of the last request (\<open>fire station\<close>) is not in it.
\<close>

theorem join_fires_after_six_of_eight:
  "length queries = 8 \<and> totalSearches = 6
   \<and> completion oneEach 20000 = queries
   \<and> (case searchWithGoogleService oneEach defaultCenter 20000 of
         Resolved ps \<Rightarrow>
           map sp_id ps = [''police station'', ''police'', ''hospital'', ''emergency'',
                           ''medical center'', ''government office'']
           \<and> ''fire station'' \<notin> sp_id ` set ps
       | Rejected e \<Rightarrow> False
       | Pending \<Rightarrow> False)"
proof -
  have r: "searchWithGoogleService oneEach defaultCenter 20000
      = Resolved (sortedPlaces (uniquePlaces (merged oneEach defaultCenter 20000 totalSearches)))"
    by (simp add: searchWithGoogleService_eq) (simp add: oneEach_def queries_eq totalSearches_eq)
  show ?thesis
    by (simp only: r merged_oneEach toSafePlace_same uniquePlaces_keepFirst)
       (simp add: queries_eq totalSearches_eq oneEach_def sortedPlaces_def distanceOr0_def)
qed

section \<open>findNearbyPlaces\<close>

lemma findNearbyPlaces_not_loaded:
  "\<not> googleLoaded prov \<Longrightarrow> findNearbyPlaces prov u location st = caught (st\<lparr>loading := True, error := None\<rparr>)"
  by (simp add: findNearbyPlaces_def searchWithGoogleService_def Let_def)

lemma findNearbyPlaces_safePlaces_cases:
  "safePlaces (findNearbyPlaces prov u location st) = safePlaces st
   \<or> (\<exists>r. safePlaces (findNearbyPlaces prov u location st)
            = take 8 (sortedPlaces (uniquePlaces (merged prov location r totalSearches))))"
  by (auto simp: findNearbyPlaces_def searchWithGoogleService_eq Let_def caught_def deliver_def)

lemma findNearbyPlaces_updates_cases:
  "updates (findNearbyPlaces prov u location st) = updates st
   \<or> (\<exists>r. updates (findNearbyPlaces prov u location st)
            = updates st @ [take 8 (sortedPlaces (uniquePlaces (merged prov location r totalSearches)))])"
  by (auto simp: findNearbyPlaces_def searchWithGoogleService_eq Let_def caught_def deliver_def)

lemma findNearbyPlaces_all_fail:
  assumes "googleLoaded prov"
    and "\<forall>r k. snd (nearbySearch prov location r k) \<noteq> OK"
    and "totalSearches \<le> length (completion prov 20000)"
    and "totalSearches \<le> length (completion prov 50000)"
  shows "findNearbyPlaces prov u location st
      = deliver u [] (st\<lparr>loading := True, error := None, searched := searched st @ [20000, 50000],
                         searchRadius := 50\<rparr>)"
proof -
  have c: "contribution prov location r q = []" for r q
  proof -
    from assms(2) have "snd (nearbySearch prov location r (snd q)) \<noteq> OK" by blast
    then show ?thesis
      by (cases "nearbySearch prov location r (snd q)")
         (simp add: contribution_def split: option.splits)
  qed
  have m: "merged prov location r n = []" for r n
    by (simp add: merged_def c)
  have j: "sortedPlaces (uniquePlaces []) = []"
    by (simp only: joined_empty_iff)
  show ?thesis
    using assms by (simp add: findNearbyPlaces_def searchWithGoogleService_eq m j Let_def)
qed

subsection \<open>Scenario evaluations\<close>

lemma completion_long:
  "totalSearches \<le> length (completion unreachable r)"
  "totalSearches \<le> length (completion duplicated r)"
  "totalSearches \<le> length (completion duplicatedLate r)"
  "totalSearches \<le> length (completion firstAndLast r)"
  "totalSearches \<le> length (completion lastOnly r)"
  by (simp_all add: unreachable_def duplicated_def duplicatedLate_def firstAndLast_def
        lastOnly_def queries_eq totalSearches_eq)

lemma merged_duplicated:
  "merged duplicated origin r totalSearches
     = [toSafePlace origin police (placeAt ''P1'' 0 180),
        toSafePlace origin police (placeAt ''P1'' 0 180),
        toSafePlace origin police (placeAt ''P0'' 0 0)]"
  by (simp add: merged_def duplicated_def queries_eq totalSearches_eq contribution_def)

lemma unreachable_facts:
  "googleLoaded unreachable"
  "\<forall>r k. snd (nearbySearch unreachable location r k) \<noteq> OK"
  "\<not> googleLoaded notLoaded"
  by (simp_all add: unreachable_def notLoaded_def)

lemma duplicated_places:
  "sp_id (toSafePlace origin police (placeAt ''P1'' 0 180)) = ''P1''"
  "sp_id (toSafePlace origin police (placeAt ''P0'' 0 0)) = ''P0''"
  "distance (toSafePlace origin police (placeAt ''P1'' 0 180)) = Some (6371000 * pi)"
  "distance (toSafePlace origin police (placeAt ''P0'' 0 0)) = Some 0"
  by (simp_all add: toSafePlace_def placeAt_def getDistance_antipode getDistance_origin)

lemma unique_duplicated:
  "uniquePlaces (merged duplicated origin r totalSearches)
     = [toSafePlace origin police (placeAt ''P1'' 0 180),
        toSafePlace origin police (placeAt ''P0'' 0 0)]"
  by (simp add: merged_duplicated uniquePlaces_keepFirst duplicated_places)

lemma search_duplicated:
  "searchWithGoogleService duplicated origin r
     = Resolved [toSafePlace origin police (placeAt ''P0'' 0 0),
                 toSafePlace origin police (placeAt ''P1'' 0 180)]"
proof -
  have p: "\<not> pi \<le> 0" using pi_gt_zero by linarith
  have "sortedPlaces [toSafePlace origin police (placeAt ''P1'' 0 180),
                      toSafePlace origin police (placeAt ''P0'' 0 0)]
          = [toSafePlace origin police (placeAt ''P0'' 0 0),
             toSafePlace origin police (placeAt ''P1'' 0 180)]"
    by (simp add: sortedPlaces_def distanceOr0_def duplicated_places mult_le_0_iff p)
  then show ?thesis
    by (simp add: searchWithGoogleService_eq unique_duplicated completion_long)
       (simp add: duplicated_def)
qed

lemma find_duplicated:
  "safePlaces (findNearbyPlaces duplicated (Some origin) origin NearbySafePlaces_init)
     = [toSafePlace origin police (placeAt ''P0'' 0 0),
        toSafePlace origin police (placeAt ''P1'' 0 180)]"
  by (simp add: findNearbyPlaces_def search_duplicated deliver_def Let_def)

text \<open>
  The deduplication step by itself: the identifiers of \<open>uniquePlaces xs\<close> are pairwise
  distinct and are those of \<open>xs\<close>, each kept place is the first of \<open>xs\<close> with its
  identifier, and each identifier of \<open>xs\<close> is kept exactly once; the list a search
  resolves with, its first eight places and the list \<^verbatim>\<open>findNearbyPlaces\<close> stores have
  pairwise distinct identifiers.
\<close>

lemma uniquePlaces_keeps_first:
  "distinct (map sp_id (uniquePlaces xs))
   \<and> sp_id ` set (uniquePlaces xs) = sp_id ` set xs
   \<and> (\<forall>p\<in>set (uniquePlaces xs). find (\<lambda>q. sp_id q = sp_id p) xs = Some p)
   \<and> (\<forall>p\<in>set xs. count_list (map sp_id (uniquePlaces xs)) (sp_id p) = 1)
   \<and> (\<forall>ps. searchWithGoogleService prov location radius = Resolved ps \<longrightarrow>
          distinct (map sp_id ps) \<and> distinct (map sp_id (take 8 ps)))
   \<and> (distinct (map sp_id (safePlaces st)) \<longrightarrow>
          distinct (map sp_id (safePlaces (findNearbyPlaces prov u location st))))"
proof (intro conjI allI impI ballI)
  show "distinct (map sp_id (uniquePlaces xs))"
    by (simp add: uniquePlaces_keepFirst keepFirst_distinct)
  show "sp_id ` set (uniquePlaces xs) = sp_id ` set xs"
    by (simp add: uniquePlaces_keepFirst keepFirst_ids)
  show "find (\<lambda>q. sp_id q = sp_id p) xs = Some p" if "p \<in> set (uniquePlaces xs)" for p
    using that by (simp add: uniquePlaces_keepFirst keepFirst_first)
  show "count_list (map sp_id (uniquePlaces xs)) (sp_id p) = 1" if "p \<in> set xs" for p
    using that by (simp add: uniquePlaces_keepFirst keepFirst_count)
  fix ps assume r: "searchWithGoogleService prov location radius = Resolved ps"
  then have ps: "ps = sortedPlaces (uniquePlaces (merged prov location radius totalSearches))"
    by (simp add: resolved_cases)
  show d: "distinct (map sp_id ps)" by (simp only: ps joined_distinct)
  show "distinct (map sp_id (take 8 ps))"
    using d by (simp add: take_map [symmetric])
next
  assume d: "distinct (map sp_id (safePlaces st))"
  from findNearbyPlaces_safePlaces_cases [of prov u location st]
  show "distinct (map sp_id (safePlaces (findNearbyPlaces prov u location st)))"
  proof
    assume "safePlaces (findNearbyPlaces prov u location st) = safePlaces st"
    with d show ?thesis by simp
  next
    assume "\<exists>r. safePlaces (findNearbyPlaces prov u location st)
            = take 8 (sortedPlaces (uniquePlaces (merged prov location r totalSearches)))"
    then obtain r where "safePlaces (findNearbyPlaces prov u location st)
            = take 8 (sortedPlaces (uniquePlaces (merged prov location r totalSearches)))" ..
    then show ?thesis
      using joined_distinct [of "merged prov location r totalSearches"]
      by (simp add: take_map [symmetric])
  qed
qed

lemma merged_duplicatedLate:
  "merged duplicatedLate origin r totalSearches = []"
  "merged duplicatedLate origin r (length queries)
     = [toSafePlace origin police (placeAt ''P1'' 0 180),
        toSafePlace origin police (placeAt ''P0'' 0 0),
        toSafePlace origin police (placeAt ''P1'' 0 180)]"
  by (simp_all add: merged_def duplicatedLate_def duplicated_def queries_eq totalSearches_eq
        contribution_def)

lemma search_duplicatedLate: "searchWithGoogleService duplicatedLate origin r = Resolved []"
proof -
  have "sortedPlaces (uniquePlaces []) = []"
    by (simp only: joined_empty_iff)
  then show ?thesis
    by (simp add: searchWithGoogleService_eq merged_duplicatedLate completion_long)
       (simp add: duplicatedLate_def duplicated_def)
qed

text \<open>
  C8. The claim: when two query results share an identifier, the merged list holds
  exactly one entry for it. The deduplication step does that, but the list it is given
  is what was merged when the counter reached \<open>totalSearches = 6\<close> of the 8 requests
  (the defect of the join). When the two police requests, whose results share \<open>P1\<close>, are the
  last two to complete, their results are pushed after the promise was resolved: both
  attempts resolve with the empty list and the stored list has no entry for \<open>P1\<close>.
\<close>

theorem shared_identifier_lost_at_join:
  "completion duplicatedLate 20000 = rev queries
   \<and> map sp_id (merged duplicatedLate origin 20000 (length queries)) = [''P1'', ''P0'', ''P1'']
   \<and> searchWithGoogleService duplicatedLate origin 20000 = Resolved []
   \<and> searchWithGoogleService duplicatedLate origin 50000 = Resolved []
   \<and> safePlaces (findNearbyPlaces duplicatedLate (Some origin) origin NearbySafePlaces_init) = []"
proof (intro conjI)
  show "completion duplicatedLate 20000 = rev queries"
    by (simp add: duplicatedLate_def)
  show "map sp_id (merged duplicatedLate origin 20000 (length queries)) = [''P1'', ''P0'', ''P1'']"
    by (simp add: merged_duplicatedLate duplicated_places)
  show "searchWithGoogleService duplicatedLate origin 20000 = Resolved []"
    by (rule search_duplicatedLate)
  show "searchWithGoogleService duplicatedLate origin 50000 = Resolved []"
    by (rule search_duplicatedLate)
  show "safePlaces (findNearbyPlaces duplicatedLate (Some origin) origin NearbySafePlaces_init) = []"
    by (simp add: findNearbyPlaces_def search_duplicatedLate deliver_def Let_def)
qed

text \<open>
  C9. The output is sorted ascending by distance: every place of the list a search
  resolves with carries a distance and for \<open>i < j\<close> the distance at \<open>i\<close> is at most
  the distance at \<open>j\<close>; \<^verbatim>\<open>findNearbyPlaces\<close> keeps the stored list and every list it
  hands to \<^verbatim>\<open>onNearestPlaceUpdate\<close> ascending.
\<close>

theorem output_sorted_by_distance:
  "(\<forall>ps. searchWithGoogleService prov location radius = Resolved ps \<longrightarrow>
        ascending ps
        \<and> (\<forall>i j. i < j \<and> j < length ps \<longrightarrow> the (distance (ps ! i)) \<le> the (distance (ps ! j))))
   \<and> (ascending (safePlaces st) \<longrightarrow>
        ascending (safePlaces (findNearbyPlaces prov u location st))
        \<and> (\<forall>i j. i < j \<and> j < length (safePlaces (findNearbyPlaces prov u location st)) \<longrightarrow>
              the (distance (safePlaces (findNearbyPlaces prov u location st) ! i))
                \<le> the (distance (safePlaces (findNearbyPlaces prov u location st) ! j))))
   \<and> (list_all ascending (updates st) \<longrightarrow>
        list_all ascending (updates (findNearbyPlaces prov u location st)))"
proof (intro conjI allI impI)
  fix ps assume "searchWithGoogleService prov location radius = Resolved ps"
  then have ps: "ps = sortedPlaces (uniquePlaces (merged prov location radius totalSearches))"
    by (simp add: resolved_cases)
  show a: "ascending ps" by (simp only: ps joined_ascending)
  fix i j assume "i < j \<and> j < length ps"
  with a show "the (distance (ps ! i)) \<le> the (distance (ps ! j))"
    by (simp add: ascending_nth)
next
  assume a: "ascending (safePlaces st)"
  from findNearbyPlaces_safePlaces_cases [of prov u location st]
  show b: "ascending (safePlaces (findNearbyPlaces prov u location st))"
    using a joined_ascending ascending_take by (metis (no_types))
  fix i j assume "i < j \<and> j < length (safePlaces (findNearbyPlaces prov u location st))"
  with b show "the (distance (safePlaces (findNearbyPlaces prov u location st) ! i))
                \<le> the (distance (safePlaces (findNearbyPlaces prov u location st) ! j))"
    by (simp add: ascending_nth)
next
  assume a: "list_all ascending (updates st)"
  from findNearbyPlaces_updates_cases [of prov u location st]
  show "list_all ascending (updates (findNearbyPlaces prov u location st))"
  proof
    assume "updates (findNearbyPlaces prov u location st) = updates st"
    with a show ?thesis by simp
  next
    assume "\<exists>r. updates (findNearbyPlaces prov u location st)
            = updates st @ [take 8 (sortedPlaces (uniquePlaces (merged prov location r totalSearches)))]"
    then obtain r where "updates (findNearbyPlaces prov u location st)
            = updates st @ [take 8 (sortedPlaces (uniquePlaces (merged prov location r totalSearches)))]" ..
    then show ?thesis
      using a ascending_take [OF joined_ascending [of prov location r totalSearches], of 8]
      by simp
  qed
qed

theorem output_sorted_by_distance_witness:
  "searchWithGoogleService duplicated origin 20000
       = Resolved [toSafePlace origin police (placeAt ''P0'' 0 0),
                   toSafePlace origin police (placeAt ''P1'' 0 180)]
   \<and> ascending [toSafePlace origin police (placeAt ''P0'' 0 0),
                 toSafePlace origin police (placeAt ''P1'' 0 180)]
   \<and> map distance [toSafePlace origin police (placeAt ''P0'' 0 0),
                    toSafePlace origin police (placeAt ''P1'' 0 180)]
       = [Some 0, Some (6371000 * pi)]
   \<and> ascending (safePlaces NearbySafePlaces_init)
   \<and> ascending (safePlaces (findNearbyPlaces duplicated (Some origin) origin NearbySafePlaces_init))
   \<and> list_all ascending (updates NearbySafePlaces_init)
   \<and> list_all ascending
        (updates (findNearbyPlaces duplicated (Some origin) origin NearbySafePlaces_init))"
proof -
  have i: "safePlaces NearbySafePlaces_init = []" "updates NearbySafePlaces_init = []"
    by (simp_all add: NearbySafePlaces_init_def)
  have e: "ascending []" by (simp add: ascending_def)
  show ?thesis
    using output_sorted_by_distance
        [of duplicated origin 20000 NearbySafePlaces_init "Some origin"]
    by (simp add: search_duplicated i e duplicated_places)
qed

text \<open>
  What \<^verbatim>\<open>findNearbyPlaces\<close> does with the lists the attempts resolve with, when the
  library is loaded and both attempts reach their join: the 50 000 m attempt is made
  exactly when the 20 000 m attempt merged nothing by its join, the radius shown is 50
  then and 20 otherwise, and the stored list is the first eight places of the deciding
  attempt's resolved list.
\<close>

lemma findNearbyPlaces_at_join:
  assumes "googleLoaded prov"
    and "totalSearches \<le> length (completion prov 20000)"
    and "totalSearches \<le> length (completion prov 50000)"
  shows "let first = merged prov location 20000 totalSearches;
             second = merged prov location 50000 totalSearches;
             st' = findNearbyPlaces prov u location st
         in if first = []
            then searched st' = searched st @ [20000, 50000] \<and> searchRadius st' = 50
                 \<and> safePlaces st' = take 8 (sortedPlaces (uniquePlaces second))
                 \<and> length (safePlaces st') = min 8 (card (sp_id ` set second))
            else searched st' = searched st @ [20000] \<and> searchRadius st' = 20
                 \<and> safePlaces st' = take 8 (sortedPlaces (uniquePlaces first))
                 \<and> length (safePlaces st') = min 8 (card (sp_id ` set first))"
proof (cases "merged prov location 20000 totalSearches = []")
  case True
  then have e: "sortedPlaces (uniquePlaces (merged prov location 20000 totalSearches)) = []"
    by (simp only: joined_empty_iff)
  show ?thesis
    using assms True
    by (simp add: findNearbyPlaces_def searchWithGoogleService_eq e Let_def deliver_def
          joined_length min.commute)
next
  case False
  then have e: "sortedPlaces (uniquePlaces (merged prov location 20000 totalSearches)) \<noteq> []"
    by (simp only: joined_empty_iff not_False_eq_True)
  show ?thesis
    using assms False e
    by (simp add: findNearbyPlaces_def searchWithGoogleService_eq Let_def deliver_def
          joined_length min.commute)
qed

lemma merged_firstAndLast:
  "merged firstAndLast loc r totalSearches = [toSafePlace loc police (placeAt ''A'' (lat loc) (lng loc))]"
  "merged firstAndLast loc r (length queries)
     = [toSafePlace loc police (placeAt ''A'' (lat loc) (lng loc)),
        toSafePlace loc government (placeAt ''B'' (lat loc) (lng loc))]"
  by (simp_all add: merged_def firstAndLast_def queries_eq totalSearches_eq contribution_def)

lemma merged_lastOnly:
  "merged lastOnly loc r totalSearches = []"
  "merged lastOnly loc r (length queries)
     = [toSafePlace loc government (placeAt ''F1'' (lat loc) (lng loc))]"
  by (simp_all add: merged_def lastOnly_def queries_eq totalSearches_eq contribution_def)

lemma search_firstAndLast:
  "searchWithGoogleService firstAndLast loc r
     = Resolved [toSafePlace loc police (placeAt ''A'' (lat loc) (lng loc))]"
proof -
  have "sortedPlaces (uniquePlaces [toSafePlace loc police (placeAt ''A'' (lat loc) (lng loc))])
          = [toSafePlace loc police (placeAt ''A'' (lat loc) (lng loc))]"
    by (simp add: uniquePlaces_keepFirst sortedPlaces_def)
  then show ?thesis
    by (simp add: searchWithGoogleService_eq merged_firstAndLast completion_long)
       (simp add: firstAndLast_def)
qed

lemma search_lastOnly: "searchWithGoogleService lastOnly loc r = Resolved []"
proof -
  have "sortedPlaces (uniquePlaces []) = []"
    by (simp only: joined_empty_iff)
  then show ?thesis
    by (simp add: searchWithGoogleService_eq merged_lastOnly completion_long)
       (simp add: lastOnly_def)
qed

text \<open>
  C4. The claim: the radius shown is 50 when the 20 000 m attempt found nothing and 20
  otherwise, and the stored list has min(8, number of unique places the deciding attempt
  found) entries. The attempt's list is what was merged when the counter reached
  \<open>totalSearches = 6\<close> of the 8 requests (the defect of the join), so places of the last two
  requests are not counted. With \<open>A\<close> found by the first request and \<open>B\<close> by the
  last, the 20 000 m attempt finds two places and the stored list has one, \<open>A\<close>. With
  \<open>F1\<close> found by the last request only, the 20 000 m attempt finds \<open>F1\<close>, yet the
  50 000 m attempt is made, the radius shown is 50 and the stored list is empty.
\<close>

theorem late_results_miss_the_stored_list:
  "map sp_id (merged firstAndLast defaultCenter 20000 (length queries)) = [''A'', ''B'']
   \<and> map sp_id (safePlaces (findNearbyPlaces firstAndLast (Some defaultCenter) defaultCenter
                   NearbySafePlaces_init)) = [''A'']
   \<and> searchRadius (findNearbyPlaces firstAndLast (Some defaultCenter) defaultCenter
        NearbySafePlaces_init) = 20
   \<and> map sp_id (merged lastOnly defaultCenter 20000 (length queries)) = [''F1'']
   \<and> safePlaces (findNearbyPlaces lastOnly (Some defaultCenter) defaultCenter
        NearbySafePlaces_init) = []
   \<and> searchRadius (findNearbyPlaces lastOnly (Some defaultCenter) defaultCenter
        NearbySafePlaces_init) = 50
   \<and> searched (findNearbyPlaces lastOnly (Some defaultCenter) defaultCenter
        NearbySafePlaces_init) = [20000, 50000]"
proof -
  have i: "searched NearbySafePlaces_init = []" by (simp add: NearbySafePlaces_init_def)
  have a: "findNearbyPlaces firstAndLast (Some defaultCenter) defaultCenter NearbySafePlaces_init
      = deliver (Some defaultCenter)
          [toSafePlace defaultCenter police
             (placeAt ''A'' (lat defaultCenter) (lng defaultCenter))]
          (NearbySafePlaces_init\<lparr>loading := True, error := None,
             searched := searched NearbySafePlaces_init @ [20000], searchRadius := 20\<rparr>)"
    by (simp add: findNearbyPlaces_def search_firstAndLast Let_def)
  have f: "findNearbyPlaces lastOnly (Some defaultCenter) defaultCenter NearbySafePlaces_init
      = deliver (Some defaultCenter) []
          (NearbySafePlaces_init\<lparr>loading := True, error := None,
             searched := searched NearbySafePlaces_init @ [20000, 50000], searchRadius := 50\<rparr>)"
    by (simp add: findNearbyPlaces_def search_lastOnly Let_def)
  show ?thesis
    by (simp only: a f)
       (simp add: deliver_def i merged_firstAndLast merged_lastOnly toSafePlace_same Let_def)
qed

text \<open>
  C5, as amended. When the maps library is not loaded, the call ends with the error
  message set and loading cleared, every other field as before (the stored list is kept,
  nothing is handed to \<^verbatim>\<open>onNearestPlaceUpdate\<close>), and for a known location the error
  card with its Retry button is rendered. When the library is loaded and every request of
  both attempts comes back with a status other than \<^verbatim>\<open>OK\<close>, no error is set: the call
  ends with the empty list, radius 50, and hands the empty list on.
\<close>

theorem provider_failure_handling:
  "(\<not> googleLoaded prov \<longrightarrow>
      findNearbyPlaces prov u location st
        = st\<lparr>loading := False, error := Some ''Unable to fetch nearby places. Please try again.''\<rparr>
      \<and> render (Some location) (findNearbyPlaces prov u location st)
          = ErrorCardWithRetry ''Unable to fetch nearby places. Please try again.'')
   \<and> (googleLoaded prov \<and> (\<forall>r k. snd (nearbySearch prov location r k) \<noteq> OK)
        \<and> totalSearches \<le> length (completion prov 20000)
        \<and> totalSearches \<le> length (completion prov 50000) \<longrightarrow>
      error (findNearbyPlaces prov u location st) = None
      \<and> safePlaces (findNearbyPlaces prov u location st) = []
      \<and> searchRadius (findNearbyPlaces prov u location st) = 50
      \<and> updates (findNearbyPlaces prov u location st) = updates st @ [[]])"
proof (intro conjI impI)
  assume n: "\<not> googleLoaded prov"
  show eq: "findNearbyPlaces prov u location st
        = st\<lparr>loading := False, error := Some ''Unable to fetch nearby places. Please try again.''\<rparr>"
    using n by (simp add: findNearbyPlaces_not_loaded caught_def)
  show "render (Some location) (findNearbyPlaces prov u location st)
          = ErrorCardWithRetry ''Unable to fetch nearby places. Please try again.''"
    by (simp only: eq) (simp add: render_def)
next
  assume a: "googleLoaded prov \<and> (\<forall>r k. snd (nearbySearch prov location r k) \<noteq> OK)
        \<and> totalSearches \<le> length (completion prov 20000)
        \<and> totalSearches \<le> length (completion prov 50000)"
  then have st': "findNearbyPlaces prov u location st
      = deliver u [] (st\<lparr>loading := True, error := None, searched := searched st @ [20000, 50000],
                         searchRadius := 50\<rparr>)"
    by (simp add: findNearbyPlaces_all_fail)
  show "error (findNearbyPlaces prov u location st) = None"
    by (simp add: st' deliver_def)
  show "safePlaces (findNearbyPlaces prov u location st) = []"
    by (simp add: st' deliver_def)
  show "searchRadius (findNearbyPlaces prov u location st) = 50"
    by (simp add: st' deliver_def)
  show "updates (findNearbyPlaces prov u location st) = updates st @ [[]]"
    by (simp add: st' deliver_def)
qed

theorem provider_failure_handling_witness:
  "\<not> googleLoaded notLoaded
   \<and> error (findNearbyPlaces notLoaded (Some defaultCenter) defaultCenter NearbySafePlaces_init)
       = Some ''Unable to fetch nearby places. Please try again.''
   \<and> render (Some defaultCenter)
        (findNearbyPlaces notLoaded (Some defaultCenter) defaultCenter NearbySafePlaces_init)
       = ErrorCardWithRetry ''Unable to fetch nearby places. Please try again.''
   \<and> updates (findNearbyPlaces notLoaded (Some defaultCenter) defaultCenter NearbySafePlaces_init) = []
   \<and> googleLoaded unreachable
   \<and> totalSearches \<le> length (completion unreachable 20000)
   \<and> totalSearches \<le> length (completion unreachable 50000)
   \<and> error (findNearbyPlaces unreachable (Some defaultCenter) defaultCenter NearbySafePlaces_init) = None
   \<and> safePlaces (findNearbyPlaces unreachable (Some defaultCenter) defaultCenter NearbySafePlaces_init) = []
   \<and> searchRadius (findNearbyPlaces unreachable (Some defaultCenter) defaultCenter NearbySafePlaces_init) = 50
   \<and> updates (findNearbyPlaces unreachable (Some defaultCenter) defaultCenter NearbySafePlaces_init) = [[]]"
proof -
  have i: "updates NearbySafePlaces_init = []" by (simp add: NearbySafePlaces_init_def)
  show ?thesis
    using provider_failure_handling
        [of notLoaded "Some defaultCenter" defaultCenter NearbySafePlaces_init]
      provider_failure_handling
        [of unreachable "Some defaultCenter" defaultCenter NearbySafePlaces_init]
    by (simp add: unreachable_facts completion_long i render_def)
qed

text \<open>
  The claim as stated fails: with every request answered by an error status the error
  flag stays unset and the list card is rendered; with the library not loaded nothing is
  handed on, not even an empty list.
\<close>

theorem unreachable_provider_raises_no_error:
  "error (findNearbyPlaces unreachable (Some defaultCenter) defaultCenter NearbySafePlaces_init) = None
   \<and> render (Some defaultCenter)
        (findNearbyPlaces unreachable (Some defaultCenter) defaultCenter NearbySafePlaces_init)
       = PlacesCard 50 \<lparr>zone = unknown, nearestDistance = Num 0, nearestPlace = None\<rparr> []
   \<and> updates (findNearbyPlaces notLoaded (Some defaultCenter) defaultCenter NearbySafePlaces_init) = []"
proof -
  have u: "findNearbyPlaces unreachable (Some defaultCenter) defaultCenter NearbySafePlaces_init
      = deliver (Some defaultCenter) []
          (NearbySafePlaces_init\<lparr>loading := True, error := None,
             searched := searched NearbySafePlaces_init @ [20000, 50000], searchRadius := 50\<rparr>)"
    by (rule findNearbyPlaces_all_fail) (simp_all add: unreachable_facts completion_long)
  have n: "findNearbyPlaces notLoaded (Some defaultCenter) defaultCenter NearbySafePlaces_init
      = caught (NearbySafePlaces_init\<lparr>loading := True, error := None\<rparr>)"
    by (rule findNearbyPlaces_not_loaded) (simp add: unreachable_facts)
  show ?thesis
    by (simp only: u n)
       (simp add: deliver_def caught_def render_def calculateZoneStatus_def
          NearbySafePlaces_init_def)
qed

section \<open>Location source and Dashboard\<close>

text \<open>
  C6, as amended. When geolocation fails, is denied or is missing, the map component
  takes its \<^verbatim>\<open>center\<close> as the location and hands it to \<^verbatim>\<open>onLocationChange\<close>; the
  Dashboard stores the default centre as the user's location and, when the render in
  which the request was made held places, classifies from that coordinate and those
  places; otherwise it leaves the stored status as it was.
\<close>

theorem geolocation_failure_falls_back_to_center:
  assumes "geo = PositionError \<or> geo = Unsupported"
  shows "snd (getCurrentLocation center geo gm) = center
     \<and> currentLocation (fst (getCurrentLocation center geo gm)) = Some center
     \<and> userLocation (snd (locate geo rendered (gm, d))) = Some defaultCenter
     \<and> nearestSafePlaces (snd (locate geo rendered (gm, d))) = nearestSafePlaces d
     \<and> zoneStatus_Dashboard (snd (locate geo rendered (gm, d)))
         = (if nearestSafePlaces rendered = [] then zoneStatus_Dashboard d
            else checkSafetyZone (Some defaultCenter) (nearestSafePlaces rendered))"
  using assms
  by (auto simp: getCurrentLocation_def locate_def handleLocationChange_def Let_def)

theorem geolocation_failure_falls_back_to_center_witness:
  "(PositionError = PositionError \<or> PositionError = Unsupported)
   \<and> snd (getCurrentLocation defaultCenter PositionError GoogleMap_init) = defaultCenter
   \<and> userLocation (snd (locate PositionError
        (Dashboard_init\<lparr>nearestSafePlaces := [placeWith ''P1'' 500]\<rparr>)
        (GoogleMap_init, Dashboard_init\<lparr>nearestSafePlaces := [placeWith ''P1'' 500]\<rparr>)))
       = Some defaultCenter
   \<and> zone (zoneStatus_Dashboard (snd (locate PositionError
        (Dashboard_init\<lparr>nearestSafePlaces := [placeWith ''P1'' 500]\<rparr>)
        (GoogleMap_init, Dashboard_init\<lparr>nearestSafePlaces := [placeWith ''P1'' 500]\<rparr>))))
       = green
   \<and> zoneStatus_Dashboard (snd (locate PositionError Dashboard_init
        (GoogleMap_init, Dashboard_init\<lparr>nearestSafePlaces := [placeWith ''P1'' 500]\<rparr>)))
       = zoneStatus_Dashboard Dashboard_init"
  using geolocation_failure_falls_back_to_center
    [of PositionError defaultCenter GoogleMap_init
        "Dashboard_init\<lparr>nearestSafePlaces := [placeWith ''P1'' 500]\<rparr>"
        "Dashboard_init\<lparr>nearestSafePlaces := [placeWith ''P1'' 500]\<rparr>"]
    geolocation_failure_falls_back_to_center
    [of PositionError defaultCenter GoogleMap_init Dashboard_init
        "Dashboard_init\<lparr>nearestSafePlaces := [placeWith ''P1'' 500]\<rparr>"]
  by (simp add: checkSafetyZone_P1_500) (simp add: Dashboard_init_def)

text \<open>
  The claim as stated fails: the first location request, made in the first render, fails;
  the user's location becomes the default centre, and the place list that the search
  around it then delivers, through the handler of the render that holds that location,
  yields the Green zone, not Unknown.
\<close>

theorem geolocation_failure_not_unknown:
  "userLocation (snd (locate PositionError Dashboard_init (GoogleMap_init, Dashboard_init)))
     = Some defaultCenter
   \<and> zone (zoneStatus_Dashboard (handleNearestPlacesUpdate
        (snd (locate PositionError Dashboard_init (GoogleMap_init, Dashboard_init)))
        [placeWith ''P1'' 500]
        (snd (locate PositionError Dashboard_init (GoogleMap_init, Dashboard_init))))) = green
   \<and> zone (zoneStatus_Dashboard (handleNearestPlacesUpdate
        (snd (locate PositionError Dashboard_init (GoogleMap_init, Dashboard_init)))
        [placeWith ''P1'' 500]
        (snd (locate PositionError Dashboard_init (GoogleMap_init, Dashboard_init))))) \<noteq> unknown"
proof -
  have u: "snd (locate PositionError Dashboard_init (GoogleMap_init, Dashboard_init))
             = Dashboard_init\<lparr>userLocation := Some defaultCenter\<rparr>"
    by (simp add: locate_def getCurrentLocation_def handleLocationChange_def Dashboard_init_def
          Let_def)
  show ?thesis
    by (simp add: u handleNearestPlacesUpdate_def checkSafetyZone_P1_500 Let_def)
qed

text \<open>
  C7, as amended. After an update handled by a handler of the current render (the
  location, respectively the place list, the handler reads is the stored one): if the
  stored location is known and the stored place list is non-empty, the stored status is
  the classifier's answer on the stored pair. An update with an empty list, an update of
  the places by a handler that reads no location and a new location by a handler that
  reads an empty place list leave the stored status as it was.
\<close>

theorem zone_recomputed_when_inputs_present:
  "(userLocation rendered = userLocation st
      \<and> userLocation (handleNearestPlacesUpdate rendered places st) \<noteq> None
      \<and> nearestSafePlaces (handleNearestPlacesUpdate rendered places st) \<noteq> []
      \<longrightarrow> fresh (handleNearestPlacesUpdate rendered places st))
   \<and> (nearestSafePlaces rendered = nearestSafePlaces st
      \<and> nearestSafePlaces (handleLocationChange rendered location st) \<noteq> []
      \<longrightarrow> fresh (handleLocationChange rendered location st))
   \<and> nearestSafePlaces (handleNearestPlacesUpdate rendered places st) = places
   \<and> userLocation (handleNearestPlacesUpdate rendered places st) = userLocation st
   \<and> userLocation (handleLocationChange rendered location st) = Some location
   \<and> nearestSafePlaces (handleLocationChange rendered location st) = nearestSafePlaces st
   \<and> zoneStatus_Dashboard (handleNearestPlacesUpdate rendered [] st) = zoneStatus_Dashboard st
   \<and> (userLocation rendered = None
      \<longrightarrow> zoneStatus_Dashboard (handleNearestPlacesUpdate rendered places st)
            = zoneStatus_Dashboard st)
   \<and> (nearestSafePlaces rendered = []
      \<longrightarrow> zoneStatus_Dashboard (handleLocationChange rendered location st)
            = zoneStatus_Dashboard st)"
  by (auto simp: handleNearestPlacesUpdate_def handleLocationChange_def fresh_def Let_def)

theorem zone_recomputed_when_inputs_present_witness:
  "userLocation (Dashboard_init\<lparr>userLocation := Some defaultCenter\<rparr>)
     = userLocation (Dashboard_init\<lparr>userLocation := Some defaultCenter\<rparr>)
   \<and> userLocation (handleNearestPlacesUpdate
        (Dashboard_init\<lparr>userLocation := Some defaultCenter\<rparr>) [placeWith ''P1'' 500]
        (Dashboard_init\<lparr>userLocation := Some defaultCenter\<rparr>)) \<noteq> None
   \<and> nearestSafePlaces (handleNearestPlacesUpdate
        (Dashboard_init\<lparr>userLocation := Some defaultCenter\<rparr>) [placeWith ''P1'' 500]
        (Dashboard_init\<lparr>userLocation := Some defaultCenter\<rparr>)) \<noteq> []
   \<and> fresh (handleNearestPlacesUpdate
        (Dashboard_init\<lparr>userLocation := Some defaultCenter\<rparr>) [placeWith ''P1'' 500]
        (Dashboard_init\<lparr>userLocation := Some defaultCenter\<rparr>))
   \<and> nearestSafePlaces (handleLocationChange
        (Dashboard_init\<lparr>nearestSafePlaces := [placeWith ''P1'' 500]\<rparr>) origin
        (Dashboard_init\<lparr>nearestSafePlaces := [placeWith ''P1'' 500]\<rparr>)) \<noteq> []
   \<and> fresh (handleLocationChange
        (Dashboard_init\<lparr>nearestSafePlaces := [placeWith ''P1'' 500]\<rparr>) origin
        (Dashboard_init\<lparr>nearestSafePlaces := [placeWith ''P1'' 500]\<rparr>))
   \<and> userLocation Dashboard_init = None
   \<and> nearestSafePlaces Dashboard_init = []
   \<and> zoneStatus_Dashboard (handleNearestPlacesUpdate Dashboard_init [placeWith ''P1'' 500]
        (Dashboard_init\<lparr>userLocation := Some defaultCenter\<rparr>))
       = zoneStatus_Dashboard Dashboard_init
   \<and> zoneStatus_Dashboard (handleLocationChange Dashboard_init defaultCenter
        (Dashboard_init\<lparr>nearestSafePlaces := [placeWith ''P1'' 500]\<rparr>))
       = zoneStatus_Dashboard Dashboard_init"
  using zone_recomputed_when_inputs_present
      [of "Dashboard_init\<lparr>userLocation := Some defaultCenter\<rparr>"
          "Dashboard_init\<lparr>userLocation := Some defaultCenter\<rparr>" "[placeWith ''P1'' 500]"]
    zone_recomputed_when_inputs_present
      [of "Dashboard_init\<lparr>nearestSafePlaces := [placeWith ''P1'' 500]\<rparr>"
          "Dashboard_init\<lparr>nearestSafePlaces := [placeWith ''P1'' 500]\<rparr>" _ origin]
    zone_recomputed_when_inputs_present
      [of Dashboard_init "Dashboard_init\<lparr>userLocation := Some defaultCenter\<rparr>"
          "[placeWith ''P1'' 500]"]
    zone_recomputed_when_inputs_present
      [of Dashboard_init "Dashboard_init\<lparr>nearestSafePlaces := [placeWith ''P1'' 500]\<rparr>"
          _ defaultCenter]
  by (simp add: Dashboard_init_def)

text \<open>
  The claim as stated fails when the new place list is empty, every handler being the
  one of the current render: the stored status stays Green while the classifier on the
  latest pair answers Unknown.
\<close>

theorem stale_zone_after_empty_update:
  "\<not> fresh (handleNearestPlacesUpdate
        (Dashboard_init\<lparr>userLocation := Some defaultCenter,
           nearestSafePlaces := [placeWith ''P1'' 500],
           zoneStatus_Dashboard := checkSafetyZone (Some defaultCenter) [placeWith ''P1'' 500]\<rparr>)
        []
        (Dashboard_init\<lparr>userLocation := Some defaultCenter,
           nearestSafePlaces := [placeWith ''P1'' 500],
           zoneStatus_Dashboard := checkSafetyZone (Some defaultCenter) [placeWith ''P1'' 500]\<rparr>))
   \<and> handleNearestPlacesUpdate (handleLocationChange Dashboard_init defaultCenter Dashboard_init)
        [placeWith ''P1'' 500] (handleLocationChange Dashboard_init defaultCenter Dashboard_init)
       = Dashboard_init\<lparr>userLocation := Some defaultCenter,
           nearestSafePlaces := [placeWith ''P1'' 500],
           zoneStatus_Dashboard := checkSafetyZone (Some defaultCenter) [placeWith ''P1'' 500]\<rparr>
   \<and> zone (zoneStatus_Dashboard (handleNearestPlacesUpdate
        (Dashboard_init\<lparr>userLocation := Some defaultCenter,
           nearestSafePlaces := [placeWith ''P1'' 500],
           zoneStatus_Dashboard := checkSafetyZone (Some defaultCenter) [placeWith ''P1'' 500]\<rparr>)
        []
        (Dashboard_init\<lparr>userLocation := Some defaultCenter,
           nearestSafePlaces := [placeWith ''P1'' 500],
           zoneStatus_Dashboard := checkSafetyZone (Some defaultCenter) [placeWith ''P1'' 500]\<rparr>)))
       = green
   \<and> zone (checkSafetyZone (Some defaultCenter) []) = unknown"
proof -
  have a: "handleLocationChange Dashboard_init defaultCenter Dashboard_init
             = Dashboard_init\<lparr>userLocation := Some defaultCenter\<rparr>"
    by (simp add: handleLocationChange_def Dashboard_init_def Let_def)
  have b: "handleNearestPlacesUpdate (Dashboard_init\<lparr>userLocation := Some defaultCenter\<rparr>)
             [placeWith ''P1'' 500] (Dashboard_init\<lparr>userLocation := Some defaultCenter\<rparr>)
           = Dashboard_init\<lparr>userLocation := Some defaultCenter,
               nearestSafePlaces := [placeWith ''P1'' 500],
               zoneStatus_Dashboard := checkSafetyZone (Some defaultCenter) [placeWith ''P1'' 500]\<rparr>"
    by (simp add: handleNearestPlacesUpdate_def Dashboard_init_def Let_def)
  have c: "zone (checkSafetyZone (Some defaultCenter) []) = unknown"
    by (simp add: checkSafetyZone_def)
  have d: "checkSafetyZone (Some defaultCenter) [placeWith ''P1'' 500]
             \<noteq> checkSafetyZone (Some defaultCenter) []"
    using c checkSafetyZone_P1_500 by (metis Zone.distinct(1))
  show ?thesis
    using c d
    by (simp add: a b handleNearestPlacesUpdate_def fresh_def checkSafetyZone_P1_500 Let_def)
qed

end
